theory Spec2Isabelle
  imports Main "HOL-Library.AList" "HOL-Library.Sublist" "HOL-Library.Word"
begin

section \<open>The credential store of the client (handlers.go, type Client)\<close>

text \<open>
  Go maps are modelled as association lists read with \<open>map_of\<close> and written with
  \<open>AList.update\<close> and \<open>AList.delete\<close>, so that the loops that range over a whole
  map can be evaluated. Identifiers are the strings they print as.
\<close>

type_synonym CredentialTypeIdentifier = string
type_synonym CLSignature = nat
type_synonym PublicKey = nat

text \<open>
  \<open>irma.AttributeList\<close>: the record holds what its methods \<open>Hash()\<close>, \<open>Strings()\<close>
  and \<open>CredentialType()\<close> return (the latter is nil for an unknown type) and the
  integers \<open>Ints\<close>.
\<close>

record AttributeList =
  Hash :: string
  Ints :: "int list"
  Strings :: "string list"
  attrs_CredentialType :: "CredentialTypeIdentifier option"

record CredentialType =
  Identifier :: CredentialTypeIdentifier
  IsSingleton :: bool

text \<open>
  The client's \<open>credential\<close>: the gabi credential (attribute vector, signature, public
  key) with what \<open>CredentialType()\<close> and \<open>AttributeList()\<close> return.
\<close>

record credential =
  Attributes :: "int list"
  Signature :: CLSignature
  Pk :: PublicKey
  cred_CredentialType :: "CredentialType option"
  cred_AttributeList :: AttributeList

record LogEntry =
  Type :: string
  Time :: int
  Removed :: "(CredentialTypeIdentifier \<times> string list) list"

datatype store_error =
    NoSuchCredential CredentialTypeIdentifier int
  | StorageFailure
  | SignatureFileNotFound
  | UnknownPublicKey
  | LibraryError string
  | IndexOutOfRange

text \<open>
  Modelled from the spec: the persistence contract (\<open>StoreSignature\<close>,
  \<open>LoadSignature\<close>, \<open>DeleteSignature\<close>, \<open>StoreAttributes\<close>, \<open>StoreLogs\<close>) of the
  type \<open>storage\<close>, whose file is not among the sources. Signature blobs are kept by the
  content hash of their attribute list. An operation can fail with an I/O error: the
  operations are counted in \<open>ops\<close>, and the ones whose number is in \<open>faults\<close> fail and
  leave the persisted data as it was.
\<close>

record storage =
  signatures :: "(string \<times> CLSignature) list"
  stored_attributes :: "(CredentialTypeIdentifier \<times> AttributeList list) list"
  stored_logs :: "LogEntry list"
  faults :: "nat list"
  ops :: nat

definition storage_op :: "(storage \<Rightarrow> storage) \<Rightarrow> storage \<Rightarrow> store_error option \<times> storage" where
  "storage_op f st =
     (if ops st \<in> set (faults st) then (Some StorageFailure, st\<lparr>ops := Suc (ops st)\<rparr>)
      else (None, (f st)\<lparr>ops := Suc (ops st)\<rparr>))"

definition StoreSignature :: "credential \<Rightarrow> storage \<Rightarrow> store_error option \<times> storage" where
  "StoreSignature cred =
     storage_op (\<lambda>st. st\<lparr>signatures :=
       AList.update (Hash (cred_AttributeList cred)) (Signature cred) (signatures st)\<rparr>)"

definition DeleteSignature :: "AttributeList \<Rightarrow> storage \<Rightarrow> store_error option \<times> storage" where
  "DeleteSignature attrs =
     storage_op (\<lambda>st. st\<lparr>signatures := AList.delete (Hash attrs) (signatures st)\<rparr>)"

definition StoreAttributes ::
  "(CredentialTypeIdentifier \<times> AttributeList list) list \<Rightarrow> storage \<Rightarrow> store_error option \<times> storage" where
  "StoreAttributes as = storage_op (\<lambda>st. st\<lparr>stored_attributes := as\<rparr>)"

definition StoreLogs :: "LogEntry list \<Rightarrow> storage \<Rightarrow> store_error option \<times> storage" where
  "StoreLogs ls = storage_op (\<lambda>st. st\<lparr>stored_logs := ls\<rparr>)"

definition LoadSignature ::
  "AttributeList \<Rightarrow> storage \<Rightarrow> (CLSignature option \<times> store_error option) \<times> storage" where
  "LoadSignature attrs st =
     (if ops st \<in> set (faults st) then ((None, Some StorageFailure), st\<lparr>ops := Suc (ops st)\<rparr>)
      else ((map_of (signatures st) (Hash attrs), None), st\<lparr>ops := Suc (ops st)\<rparr>))"

text \<open>
  The configuration is consulted by \<open>credential\<close> through \<open>attrs.PublicKey()\<close> and
  \<open>newCredential\<close>, both defined outside the sources; they are parameters of the
  model. \<open>conf_PublicKey\<close> is the error of the Go method, or else its key, nil
  for an unknown one.
\<close>

record Configuration =
  conf_PublicKey :: "AttributeList \<Rightarrow> store_error + PublicKey option"
  conf_CredentialType :: "AttributeList \<Rightarrow> CredentialType option"
  conf_newCredential_fails :: "AttributeList \<Rightarrow> store_error option"

text \<open>
  Modelled from the spec: \<open>newCredential\<close> (credential.go is not among the sources)
  synthesizes the credential from the gabi credential \<open>[secretkey, ...attrs.ints]\<close>,
  the signature and the public key, or fails with the library's error.
\<close>

definition newCredential ::
  "Configuration \<Rightarrow> AttributeList \<Rightarrow> int list \<Rightarrow> CLSignature \<Rightarrow> PublicKey
     \<Rightarrow> store_error + credential" where
  "newCredential conf attrs ints sig pk =
     (case conf_newCredential_fails conf attrs of
        Some e \<Rightarrow> Inl e
      | None \<Rightarrow> Inr \<lparr>Attributes = ints, Signature = sig, Pk = pk,
                       cred_CredentialType = conf_CredentialType conf attrs,
                       cred_AttributeList = attrs\<rparr>)"

text \<open>
  The fields of \<open>Client\<close> that the store operations read or write. \<open>clock\<close> is not a
  field of the Go struct: it is the reading of \<open>time.Now()\<close> that \<open>remove\<close> puts into
  its log entry.
\<close>

record Client =
  secretkey :: int
  attributes :: "(CredentialTypeIdentifier \<times> AttributeList list) list"
  credentialsCache :: "(CredentialTypeIdentifier \<times> (int \<times> credential) list) list"
  logs :: "LogEntry list"
  storage :: storage
  Configuration :: Configuration
  clock :: int

text \<open>
  Sequencing of the Go statements that return early on an error: \<open>and_then r f\<close>
  stops with the error of \<open>r\<close> or goes on with \<open>f\<close> on the client \<open>r\<close> left;
  \<open>on_storage\<close> runs a storage operation on the client's storage.
\<close>

definition and_then ::
  "store_error option \<times> Client \<Rightarrow> (Client \<Rightarrow> store_error option \<times> Client)
     \<Rightarrow> store_error option \<times> Client" where
  "and_then r f = (case fst r of Some e \<Rightarrow> r | None \<Rightarrow> f (snd r))"

definition on_storage ::
  "(storage \<Rightarrow> store_error option \<times> storage) \<Rightarrow> Client \<Rightarrow> store_error option \<times> Client" where
  "on_storage operation client =
     (fst (operation (storage client)), client\<lparr>storage := snd (operation (storage client))\<rparr>)"

definition addLogEntry :: "LogEntry \<Rightarrow> Client \<Rightarrow> store_error option \<times> Client" where
  "addLogEntry entry client =
     (let client1 = client\<lparr>logs := logs client @ [entry]\<rparr>
      in on_storage (StoreLogs (logs client1)) client1)"

text \<open>
  The block "Remove credential" of \<open>remove\<close> (lines 351 to 356): the cache entry of
  the index is deleted when there is one.
\<close>

definition evict :: "CredentialTypeIdentifier \<Rightarrow> int \<Rightarrow> Client \<Rightarrow> Client" where
  "evict ident index client =
     (case map_of (credentialsCache client) ident of
        None \<Rightarrow> client
      | Some cs \<Rightarrow>
          (case map_of cs index of
             None \<Rightarrow> client
           | Some c \<Rightarrow> client\<lparr>credentialsCache :=
               AList.update ident (AList.delete index cs) (credentialsCache client)\<rparr>))"

text \<open>
  \<open>remove\<close> (handlers.go, lines 336 to 374). The index is a Go \<open>int\<close>; a negative one
  passes the guard and panics at \<open>list[index]\<close>, before anything is written: the
  model returns \<open>IndexOutOfRange\<close> there.
\<close>

definition remove ::
  "CredentialTypeIdentifier \<Rightarrow> int \<Rightarrow> bool \<Rightarrow> Client \<Rightarrow> store_error option \<times> Client" where
  "remove ident index storenow client =
     (case map_of (attributes client) ident of
        None \<Rightarrow> (Some (NoSuchCredential ident index), client)
      | Some list \<Rightarrow>
          if index \<ge> int (length list) then (Some (NoSuchCredential ident index), client)
          else if index < 0 then (Some IndexOutOfRange, client)
          else
            let as = list ! nat index;
                client1 = client\<lparr>attributes :=
                  AList.update ident (take (nat index) list @ drop (Suc (nat index)) list)
                    (attributes client)\<rparr>
            in and_then (if storenow then on_storage (StoreAttributes (attributes client1)) client1
                         else (None, client1))
                 (\<lambda>client2.
                    and_then (on_storage (DeleteSignature as) (evict ident index client2))
                      (\<lambda>client3.
                         if storenow then
                           addLogEntry \<lparr>Type = ''removal'', Time = clock client3,
                                        Removed = [(ident, Strings as)]\<rparr> client3
                         else (None, client3))))"

definition RemoveCredential :: "CredentialTypeIdentifier \<Rightarrow> int \<Rightarrow> Client \<Rightarrow> store_error option \<times> Client" where
  "RemoveCredential ident index client = remove ident index True client"

text \<open>
  \<open>attrs\<close> and \<open>creds\<close> (lines 420 to 437) return the entry of the identifier and
  create an empty one when there is none.
\<close>

definition attrs :: "CredentialTypeIdentifier \<Rightarrow> Client \<Rightarrow> AttributeList list \<times> Client" where
  "attrs ident client =
     (case map_of (attributes client) ident of
        None \<Rightarrow> ([], client\<lparr>attributes := AList.update ident [] (attributes client)\<rparr>)
      | Some list \<Rightarrow> (list, client))"

definition creds :: "CredentialTypeIdentifier \<Rightarrow> Client \<Rightarrow> (int \<times> credential) list \<times> Client" where
  "creds ident client =
     (case map_of (credentialsCache client) ident of
        None \<Rightarrow> ([], client\<lparr>credentialsCache := AList.update ident [] (credentialsCache client)\<rparr>)
      | Some list \<Rightarrow> (list, client))"

text \<open>
  \<open>Attributes\<close> (lines 440 to 446): nil when the list is not longer than the counter;
  a negative counter panics at \<open>list[counter]\<close> (\<open>Inl\<close>).
\<close>

definition Attributes_of ::
  "CredentialTypeIdentifier \<Rightarrow> int \<Rightarrow> Client \<Rightarrow> (store_error + AttributeList option) \<times> Client" where
  "Attributes_of ident counter client =
     (let (list, client1) = attrs ident client
      in if int (length list) \<le> counter then (Inr None, client1)
         else if counter < 0 then (Inl IndexOutOfRange, client1)
         else (Inr (Some (list ! nat counter)), client1))"

text \<open>
  \<open>credential\<close> (lines 473 to 509) returns the pair (credential, error) of the Go
  method, with the client as the call leaves it; (nil, nil) is "we do not have the
  requested credential".
\<close>

definition credential ::
  "CredentialTypeIdentifier \<Rightarrow> int \<Rightarrow> Client \<Rightarrow> (credential option \<times> store_error option) \<times> Client" where
  "credential ident counter client =
     (let (cs, client1) = creds ident client
      in case map_of cs counter of
           Some c \<Rightarrow> ((Some c, None), client1)
         | None \<Rightarrow>
             (case Attributes_of ident counter client1 of
                (Inl e, client2) \<Rightarrow> ((None, Some e), client2)
              | (Inr None, client2) \<Rightarrow> ((None, None), client2)
              | (Inr (Some as), client2) \<Rightarrow>
                  let ((sig, err), st) = LoadSignature as (storage client2);
                      client3 = client2\<lparr>storage := st\<rparr>
                  in if err \<noteq> None then ((None, err), client3)
                     else
                       (case sig of
                          None \<Rightarrow> ((None, Some SignatureFileNotFound), client3)
                        | Some s \<Rightarrow>
                            (case conf_PublicKey (Configuration client3) as of
                               Inl e \<Rightarrow> ((None, Some e), client3)
                             | Inr None \<Rightarrow> ((None, Some UnknownPublicKey), client3)
                             | Inr (Some pk) \<Rightarrow>
                                 (case newCredential (Configuration client3) as
                                         (secretkey client3 # Ints as) s pk of
                                    Inl e \<Rightarrow> ((None, Some e), client3)
                                  | Inr cred \<Rightarrow>
                                      ((Some cred, None),
                                       client3\<lparr>credentialsCache :=
                                         AList.update ident (AList.update counter cred cs)
                                           (credentialsCache client3)\<rparr>))))))"

text \<open>
  The loop of \<open>addCredential\<close> over a singleton type (lines 301 to 305):
  \<open>for len(client.attrs(id)) != 0 { client.remove(id, 0, false) }\<close>. The error of
  \<open>remove\<close> is dropped, as in the source.
\<close>

lemma remove_first_attributes:
  assumes "map_of (attributes client) ident = Some list" and "list \<noteq> []"
  shows "map_of (attributes (snd (remove ident 0 False client))) ident = Some (tl list)"
proof -
  from assms(2) have len: "\<not> int (length list) \<le> 0" by simp
  have "take 0 list @ drop (Suc 0) list = tl list" by (simp add: drop_Suc)
  with assms(1) len show ?thesis
    by (simp add: remove_def Let_def and_then_def on_storage_def evict_def update_conv'
          split: option.splits)
qed

function remove_previous :: "CredentialTypeIdentifier \<Rightarrow> Client \<Rightarrow> Client" where
  "remove_previous ident client =
     (let (list, client1) = attrs ident client
      in if length list \<noteq> 0 then remove_previous ident (snd (remove ident 0 False client1))
         else client1)"
  by pat_completeness auto
termination
proof (relation "measure (\<lambda>(ident, client).
          case map_of (attributes client) ident of None \<Rightarrow> 0 | Some list \<Rightarrow> length list)")
  show "wf (measure (\<lambda>(ident, client).
          case map_of (attributes client) ident of None \<Rightarrow> 0 | Some list \<Rightarrow> length list))"
    by simp
next
  fix ident :: CredentialTypeIdentifier and client :: Client and x list client1
  assume x: "x = attrs ident client" and p: "(list, client1) = x" and ne: "length list \<noteq> 0"
  from x p ne have same: "client1 = client" and some: "map_of (attributes client) ident = Some list"
    by (auto simp: attrs_def split: option.splits)
  from ne have "list \<noteq> []" by auto
  with some have "map_of (attributes (snd (remove ident 0 False client))) ident = Some (tl list)"
    by (rule remove_first_attributes)
  with same some ne
  show "((ident, snd (remove ident 0 False client1)), (ident, client))
          \<in> measure (\<lambda>(ident, client).
               case map_of (attributes client) ident of None \<Rightarrow> 0 | Some list \<Rightarrow> length list)"
    by simp
qed

declare remove_previous.simps [simp del]

definition duplicate_hash :: "string \<Rightarrow> Client \<Rightarrow> bool" where
  "duplicate_hash h client =
     list_ex (\<lambda>(ident, attrlistlist). list_ex (\<lambda>as. Hash as = h) attrlistlist) (attributes client)"

text \<open>\<open>addCredential\<close> (lines 285 to 324).\<close>

definition addCredential :: "credential \<Rightarrow> bool \<Rightarrow> Client \<Rightarrow> store_error option \<times> Client" where
  "addCredential cred storeAttributes client =
     (let ident = (case cred_CredentialType cred of None \<Rightarrow> [] | Some ct \<Rightarrow> Identifier ct)
      in if duplicate_hash (Hash (cred_AttributeList cred)) client then (None, client)
         else
           let client1 =
                 (if ident \<noteq> [] \<and> (case cred_CredentialType cred of None \<Rightarrow> False | Some ct \<Rightarrow> IsSingleton ct)
                  then remove_previous ident client else client);
               (list, client2) = attrs ident client1;
               list' = list @ [cred_AttributeList cred];
               client3 = client2\<lparr>attributes := AList.update ident list' (attributes client2)\<rparr>;
               client4 =
                 (if ident \<noteq> [] then
                    let (cs, client3a) = creds ident client3;
                        counter = int (length list') - 1
                    in client3a\<lparr>credentialsCache :=
                         AList.update ident (AList.update counter cred cs) (credentialsCache client3a)\<rparr>
                  else client3)
           in and_then (on_storage (StoreSignature cred) client4)
                (\<lambda>client5.
                   if storeAttributes then on_storage (StoreAttributes (attributes client5)) client5
                   else (None, client5)))"

text \<open>The number of stored attribute lists with a given hash, over all credential types.\<close>

definition count_hash :: "string \<Rightarrow> Client \<Rightarrow> nat" where
  "count_hash h client =
     length (filter (\<lambda>as. Hash as = h) (concat (map snd (attributes client))))"

subsection \<open>A client with two student cards\<close>

definition card1 :: AttributeList where
  "card1 = \<lparr>Hash = ''h1'', Ints = [1, 10], Strings = [''s1''],
            attrs_CredentialType = Some ''irma-demo.RU.studentCard''\<rparr>"

definition card2 :: AttributeList where
  "card2 = \<lparr>Hash = ''h2'', Ints = [1, 20], Strings = [''s2''],
            attrs_CredentialType = Some ''irma-demo.RU.studentCard''\<rparr>"

definition studentCard :: CredentialType where
  "studentCard = \<lparr>Identifier = ''irma-demo.RU.studentCard'', IsSingleton = False\<rparr>"

definition demo_conf :: Configuration where
  "demo_conf = \<lparr>conf_PublicKey = (\<lambda>as. Inr (Some 7)),
                conf_CredentialType = (\<lambda>as. Some studentCard),
                conf_newCredential_fails = (\<lambda>as. None)\<rparr>"

definition demo_storage :: storage where
  "demo_storage = \<lparr>signatures = [(''h1'', 11), (''h2'', 22)],
                   stored_attributes = [(''irma-demo.RU.studentCard'', [card1, card2])],
                   stored_logs = [], faults = [], ops = 0\<rparr>"

definition demo_client :: Client where
  "demo_client = \<lparr>secretkey = 42,
                  attributes = [(''irma-demo.RU.studentCard'', [card1, card2])],
                  credentialsCache = [], logs = [], storage = demo_storage,
                  Configuration = demo_conf, clock = 1000\<rparr>"

definition card3 :: credential where
  "card3 = \<lparr>Attributes = [42, 1, 30], Signature = 33, Pk = 7,
            cred_CredentialType = Some studentCard,
            cred_AttributeList = \<lparr>Hash = ''h3'', Ints = [1, 30], Strings = [''s3''],
              attrs_CredentialType = Some ''irma-demo.RU.studentCard''\<rparr>\<rparr>"

section \<open>Properties of the credential store\<close>

subsection \<open>Auxiliary facts\<close>

lemma count_update_Some:
  "map_of al k = Some old \<Longrightarrow>
   length (filter P (concat (map snd (AList.update k v al)))) + length (filter P old)
     = length (filter P (concat (map snd al))) + length (filter P v)"
  by (induction al) (auto split: if_splits)

lemma count_update_None:
  "map_of al k = None \<Longrightarrow>
   length (filter P (concat (map snd (AList.update k v al))))
     = length (filter P (concat (map snd al))) + length (filter P v)"
  by (induction al) (auto split: if_splits)

lemma list_ex_count:
  "list_ex (\<lambda>(k, l). list_ex P l) al \<longleftrightarrow> 0 < length (filter P (concat (map snd al)))"
  by (induction al) (auto simp: list_ex_iff filter_empty_conv)

lemma duplicate_hash_count: "duplicate_hash h client \<longleftrightarrow> 0 < count_hash h client"
  unfolding duplicate_hash_def count_hash_def by (rule list_ex_count)

lemma count_hash_attrs: "count_hash h (snd (attrs ident client)) = count_hash h client"
  by (auto simp: attrs_def count_hash_def count_update_None split: option.splits)

lemma attrs_lookup:
  "attrs ident client = (list, client1) \<Longrightarrow> map_of (attributes client1) ident = Some list"
  by (auto simp: attrs_def update_conv' split: option.splits)

lemma and_then_sel:
  "fst (and_then r f) = (if fst r = None then fst (f (snd r)) else fst r)"
  "snd (and_then r f) = (if fst r = None then snd (f (snd r)) else snd r)"
  by (auto simp: and_then_def split: option.splits)

lemma on_storage_sel [simp]:
  "attributes (snd (on_storage operation c)) = attributes c"
  "credentialsCache (snd (on_storage operation c)) = credentialsCache c"
  "logs (snd (on_storage operation c)) = logs c"
  "storage (snd (on_storage operation c)) = snd (operation (storage c))"
  "fst (on_storage operation c) = fst (operation (storage c))"
  by (simp_all add: on_storage_def)

lemma evict_sel [simp]:
  "attributes (evict ident index c) = attributes c"
  "storage (evict ident index c) = storage c"
  "logs (evict ident index c) = logs c"
  by (simp_all add: evict_def split: option.splits)

lemma addLogEntry_sel [simp]:
  "attributes (snd (addLogEntry e c)) = attributes c"
  "credentialsCache (snd (addLogEntry e c)) = credentialsCache c"
  by (simp_all add: addLogEntry_def Let_def)

lemma remove_attributes:
  "attributes (snd (remove ident index storenow client)) = attributes client
   \<or> (\<exists>list. map_of (attributes client) ident = Some list \<and>
         attributes (snd (remove ident index storenow client))
           = AList.update ident (take (nat index) list @ drop (Suc (nat index)) list) (attributes client))"
proof (cases "map_of (attributes client) ident")
  case None
  then show ?thesis by (simp add: remove_def)
next
  case (Some list)
  show ?thesis
  proof (cases "index \<ge> int (length list) \<or> index < 0")
    case True
    with Some show ?thesis by (auto simp add: remove_def)
  next
    case False
    with Some show ?thesis
      by (simp add: remove_def Let_def and_then_sel)
  qed
qed

lemma count_splice:
  "length (filter P (take n list @ drop (Suc n) list)) \<le> length (filter P list)"
proof -
  have "length (filter P (drop (Suc n) list)) \<le> length (filter P (drop n list))"
  proof (cases "n < length list")
    case True
    then have "drop n list = list ! n # drop (Suc n) list" by (simp add: Cons_nth_drop_Suc)
    then show ?thesis by simp
  next
    case False
    then show ?thesis by simp
  qed
  moreover have "length (filter P list) = length (filter P (take n list)) + length (filter P (drop n list))"
    by (metis append_take_drop_id filter_append length_append)
  ultimately show ?thesis by simp
qed

lemma count_hash_remove_le:
  "count_hash h (snd (remove ident index storenow client)) \<le> count_hash h client"
proof -
  let ?P = "\<lambda>as. Hash as = h"
  from remove_attributes [of ident index storenow client] show ?thesis
  proof
    assume "attributes (snd (remove ident index storenow client)) = attributes client"
    then show ?thesis by (simp add: count_hash_def)
  next
    assume "\<exists>list. map_of (attributes client) ident = Some list \<and>
         attributes (snd (remove ident index storenow client))
           = AList.update ident (take (nat index) list @ drop (Suc (nat index)) list) (attributes client)"
    then obtain list where l: "map_of (attributes client) ident = Some list"
      and a: "attributes (snd (remove ident index storenow client))
           = AList.update ident (take (nat index) list @ drop (Suc (nat index)) list) (attributes client)"
      by blast
    from count_update_Some [OF l, of ?P "take (nat index) list @ drop (Suc (nat index)) list"]
      count_splice [of ?P "nat index" list] a
    show ?thesis by (simp add: count_hash_def)
  qed
qed

lemma count_hash_remove_previous:
  "count_hash h (remove_previous ident client) \<le> count_hash h client"
proof (induction ident client rule: remove_previous.induct)
  case (1 ident client)
  obtain list client1 where a: "attrs ident client = (list, client1)" by (cases "attrs ident client")
  then have c1: "count_hash h client1 = count_hash h client"
    using count_hash_attrs [of h ident client] by simp
  show ?case
  proof (cases "length list \<noteq> 0")
    case True
    with "1.IH" [OF refl a [symmetric]]
    have "count_hash h (remove_previous ident (snd (remove ident 0 False client1)))
            \<le> count_hash h (snd (remove ident 0 False client1))" by simp
    also have "\<dots> \<le> count_hash h client1" by (rule count_hash_remove_le)
    finally show ?thesis using a True c1 by (subst remove_previous.simps) simp
  next
    case False
    with a c1 show ?thesis by (subst remove_previous.simps) simp
  qed
qed

lemma addCredential_duplicate:
  "duplicate_hash (Hash (cred_AttributeList cred)) client \<Longrightarrow>
   addCredential cred sa client = (None, client)"
  by (simp add: addCredential_def Let_def)

lemma creds_attributes [simp]: "attributes (snd (creds ident c)) = attributes c"
  by (simp add: creds_def split: option.splits)

lemma addCredential_count:
  assumes "\<not> duplicate_hash (Hash (cred_AttributeList cred)) client"
  shows "count_hash (Hash (cred_AttributeList cred)) (snd (addCredential cred sa client)) = 1"
proof -
  let ?h = "Hash (cred_AttributeList cred)"
  let ?P = "\<lambda>as. Hash as = ?h"
  define ident where "ident = (case cred_CredentialType cred of None \<Rightarrow> [] | Some ct \<Rightarrow> Identifier ct)"
  define client1 where "client1 =
     (if ident \<noteq> [] \<and> (case cred_CredentialType cred of None \<Rightarrow> False | Some ct \<Rightarrow> IsSingleton ct)
      then remove_previous ident client else client)"
  obtain list client2 where a: "attrs ident client1 = (list, client2)" by (cases "attrs ident client1")
  from assms have c0: "count_hash ?h client = 0" by (simp add: duplicate_hash_count)
  have "count_hash ?h client1 \<le> count_hash ?h client"
    by (simp add: client1_def count_hash_remove_previous)
  with c0 have c1: "count_hash ?h client1 = 0" by simp
  with count_hash_attrs [of ?h ident client1] a have c2: "count_hash ?h client2 = 0" by simp
  from attrs_lookup [OF a] have l: "map_of (attributes client2) ident = Some list" .
  have attr: "attributes (snd (addCredential cred sa client))
          = AList.update ident (list @ [cred_AttributeList cred]) (attributes client2)"
  proof (cases "ident \<noteq> [] \<and> (case cred_CredentialType cred of None \<Rightarrow> False | Some ct \<Rightarrow> IsSingleton ct)")
    case True
    with a have "attrs ident (remove_previous ident client) = (list, client2)"
      by (simp add: client1_def)
    with True assms show ?thesis
      unfolding ident_def
      by (simp add: addCredential_def Let_def and_then_sel case_prod_beta)
  next
    case False
    with a have "attrs ident client = (list, client2)"
      by (simp add: client1_def)
    with False assms show ?thesis
      unfolding ident_def
      by (auto simp add: addCredential_def Let_def and_then_sel case_prod_beta)
  qed
  from count_update_Some [OF l, of ?P "list @ [cred_AttributeList cred]"] c2
  show ?thesis by (simp add: count_hash_def attr)
qed


lemma storage_op_signatures:
  "fst (storage_op f st) = None \<Longrightarrow> signatures (snd (storage_op f st)) = signatures (f st)"
  by (simp add: storage_op_def split: if_splits)

lemma StoreLogs_signatures [simp]: "signatures (snd (StoreLogs ls st)) = signatures st"
  by (simp add: StoreLogs_def storage_op_def)

lemma StoreAttributes_signatures [simp]: "signatures (snd (StoreAttributes as st)) = signatures st"
  by (simp add: StoreAttributes_def storage_op_def)

lemma DeleteSignature_deleted:
  "fst (DeleteSignature as st) = None \<Longrightarrow>
   map_of (signatures (snd (DeleteSignature as st))) (Hash as) = None"
  by (simp add: DeleteSignature_def storage_op_signatures delete_conv')

lemma addLogEntry_storage [simp]:
  "signatures (storage (snd (addLogEntry e c))) = signatures (storage c)"
  by (simp add: addLogEntry_def Let_def)

lemma evict_lookup:
  "map_of (credentialsCache (evict ident index c)) ident = None
   \<or> (\<exists>cs. map_of (credentialsCache (evict ident index c)) ident = Some cs \<and> map_of cs index = None)"
  by (auto simp: evict_def update_conv' delete_conv' split: option.splits)

lemma and_then_None:
  "and_then r f = (None, c') \<Longrightarrow> fst r = None \<and> f (snd r) = (None, c')"
  by (cases r) (auto simp: and_then_def split: option.splits)

lemma remove_success:
  assumes l: "map_of (attributes client) ident = Some list"
    and i: "0 \<le> index" "index < int (length list)"
    and r: "remove ident index storenow client = (None, client')"
  shows "attributes client' = AList.update ident (take (nat index) list @ drop (Suc (nat index)) list) (attributes client)"
    and "credentialsCache client' = credentialsCache (evict ident index client)"
    and "map_of (signatures (storage client')) (Hash (list ! nat index)) = None"
proof -
  let ?as = "list ! nat index"
  let ?c1 = "client\<lparr>attributes := AList.update ident (take (nat index) list @ drop (Suc (nat index)) list) (attributes client)\<rparr>"
  let ?r1 = "if storenow then on_storage (StoreAttributes (attributes ?c1)) ?c1 else (None, ?c1)"
  let ?r2 = "on_storage (DeleteSignature ?as) (evict ident index (snd ?r1))"
  let ?r3 = "if storenow then addLogEntry \<lparr>Type = ''removal'', Time = clock (snd ?r2), Removed = [(ident, Strings ?as)]\<rparr> (snd ?r2) else (None, snd ?r2)"
  from l i have unf: "remove ident index storenow client = and_then ?r1 (\<lambda>c2. and_then (on_storage (DeleteSignature ?as) (evict ident index c2))
       (\<lambda>c3. if storenow then addLogEntry \<lparr>Type = ''removal'', Time = clock c3, Removed = [(ident, Strings ?as)]\<rparr> c3 else (None, c3)))"
    by (simp add: remove_def Let_def)
  from r unf have s1: "fst ?r1 = None \<and> and_then ?r2
       (\<lambda>c3. if storenow then addLogEntry \<lparr>Type = ''removal'', Time = clock c3, Removed = [(ident, Strings ?as)]\<rparr> c3 else (None, c3)) = (None, client')"
    by (intro and_then_None) simp
  then have e1: "fst ?r1 = None" ..
  from s1 have s2: "fst ?r2 = None \<and> ?r3 = (None, client')"
    by (intro and_then_None) simp
  then have e2: "fst ?r2 = None" ..
  from s2 have c': "client' = snd ?r3" by simp
  show "attributes client' = AList.update ident (take (nat index) list @ drop (Suc (nat index)) list) (attributes client)"
    by (simp add: c')
  show "credentialsCache client' = credentialsCache (evict ident index client)"
    by (simp add: c' on_storage_def evict_def split: option.splits)
  from e2 have "fst (DeleteSignature ?as (storage (evict ident index (snd ?r1)))) = None"
    by simp
  then have "map_of (signatures (snd (DeleteSignature ?as (storage (evict ident index (snd ?r1)))))) (Hash ?as) = None"
    by (rule DeleteSignature_deleted)
  then show "map_of (signatures (storage client')) (Hash (list ! nat index)) = None"
    by (cases storenow) (simp_all add: c')
qed

lemma creds_miss:
  assumes "map_of (credentialsCache c) ident = None
     \<or> (\<exists>cs. map_of (credentialsCache c) ident = Some cs \<and> map_of cs index = None)"
  shows "map_of (fst (creds ident c)) index = None"
  using assms by (auto simp: creds_def split: option.splits)

lemma Attributes_of_stored:
  assumes "map_of (attributes c) ident = Some list" and "0 \<le> counter"
  shows "Attributes_of ident counter c =
           (if int (length list) \<le> counter then Inr None else Inr (Some (list ! nat counter)), c)"
  using assms by (simp add: Attributes_of_def attrs_def)

lemma credential_miss:
  assumes miss: "map_of (fst (creds ident c)) counter = None"
    and l: "map_of (attributes c) ident = Some list" and i: "0 \<le> counter"
  shows "fst (credential ident counter c) = (None, None) \<longleftrightarrow> int (length list) \<le> counter"
proof -
  obtain cs client1 where cr: "creds ident c = (cs, client1)" by (cases "creds ident c")
  with miss have m: "map_of cs counter = None" by simp
  from cr have "attributes client1 = attributes c"
    using creds_attributes [of ident c] by simp
  with l have l1: "map_of (attributes client1) ident = Some list" by simp
  show ?thesis
  proof (cases "int (length list) \<le> counter")
    case True
    with cr m Attributes_of_stored [OF l1 i] show ?thesis
      by (simp add: credential_def)
  next
    case False
    with cr m Attributes_of_stored [OF l1 i] show ?thesis
      by (simp add: credential_def Let_def case_prod_beta split: option.splits sum.splits)
  qed
qed


lemma creds_frame [simp]:
  "storage (snd (creds ident c)) = storage c"
  "Configuration (snd (creds ident c)) = Configuration c"
  "secretkey (snd (creds ident c)) = secretkey c"
  by (simp_all add: creds_def split: option.splits)

lemma credential_miss_stored:
  assumes miss: "map_of (fst (creds ident c)) counter = None"
    and l: "map_of (attributes c) ident = Some list"
    and i: "0 \<le> counter" "counter < int (length list)"
  shows "fst (credential ident counter c) =
           (if ops (storage c) \<in> set (faults (storage c)) then (None, Some StorageFailure)
            else case map_of (signatures (storage c)) (Hash (list ! nat counter)) of
                   None \<Rightarrow> (None, Some SignatureFileNotFound)
                 | Some s \<Rightarrow>
                     (case conf_PublicKey (Configuration c) (list ! nat counter) of
                        Inl e \<Rightarrow> (None, Some e)
                      | Inr None \<Rightarrow> (None, Some UnknownPublicKey)
                      | Inr (Some pk) \<Rightarrow>
                          (case conf_newCredential_fails (Configuration c) (list ! nat counter) of
                             Some e \<Rightarrow> (None, Some e)
                           | None \<Rightarrow>
                               (Some \<lparr>Attributes = secretkey c # Ints (list ! nat counter),
                                      Signature = s, Pk = pk,
                                      cred_CredentialType =
                                        conf_CredentialType (Configuration c) (list ! nat counter),
                                      cred_AttributeList = list ! nat counter\<rparr>, None))))"
proof -
  obtain cs client1 where cr: "creds ident c = (cs, client1)" by (cases "creds ident c")
  with miss have m: "map_of cs counter = None" by simp
  from cr have fr: "attributes client1 = attributes c" "storage client1 = storage c"
    "Configuration client1 = Configuration c" "secretkey client1 = secretkey c"
    using creds_attributes [of ident c] creds_frame [of ident c] by simp_all
  with l have l1: "map_of (attributes client1) ident = Some list" by simp
  from i have ni: "\<not> int (length list) \<le> counter" by simp
  from cr m Attributes_of_stored [OF l1 i(1)] ni fr show ?thesis
    by (simp add: credential_def LoadSignature_def newCredential_def Let_def case_prod_beta
          split: option.splits sum.splits)
qed

lemma remove_frame:
  assumes l: "map_of (attributes client) ident = Some list"
    and i: "0 \<le> index" "index < int (length list)"
    and r: "remove ident index storenow client = (None, client')"
  shows "Configuration client' = Configuration client" and "secretkey client' = secretkey client"
proof -
  have f: "\<And>c op. Configuration (snd (on_storage op c)) = Configuration c"
    "\<And>c op. secretkey (snd (on_storage op c)) = secretkey c"
    "\<And>c. Configuration (evict ident index c) = Configuration c"
    "\<And>c. secretkey (evict ident index c) = secretkey c"
    "\<And>c e. Configuration (snd (addLogEntry e c)) = Configuration c"
    "\<And>c e. secretkey (snd (addLogEntry e c)) = secretkey c"
    by (simp_all add: on_storage_def evict_def addLogEntry_def Let_def split: option.splits)
  from r have c': "client' = snd (remove ident index storenow client)" by simp
  from l i show "Configuration client' = Configuration client"
    unfolding c' by (simp add: remove_def Let_def and_then_sel f)
  from l i show "secretkey client' = secretkey client"
    unfolding c' by (simp add: remove_def Let_def and_then_sel f)
qed

subsection \<open>Adding a credential twice\<close>

text \<open>
  C7. \<open>addCredential\<close> is idempotent with respect to the hash of the attribute list:
  in a store that holds at most one attribute list with the hash of the credential, after
  two calls of \<open>addCredential\<close> with that credential exactly one stored attribute list
  has the hash; the second call finds the duplicate, returns nil and returns the client
  as it received it (attributes, cache and persistent storage unchanged).
\<close>

theorem addCredential_idempotent:
  assumes "count_hash (Hash (cred_AttributeList cred)) client \<le> 1"
  shows "addCredential cred sb (snd (addCredential cred sa client))
           = (None, snd (addCredential cred sa client))
         \<and> count_hash (Hash (cred_AttributeList cred))
              (snd (addCredential cred sb (snd (addCredential cred sa client)))) = 1"
proof -
  let ?h = "Hash (cred_AttributeList cred)"
  let ?c1 = "snd (addCredential cred sa client)"
  have one: "count_hash ?h ?c1 = 1"
  proof (cases "duplicate_hash ?h client")
    case True
    then have "?c1 = client" by (simp add: addCredential_duplicate)
    moreover from True have "0 < count_hash ?h client" by (simp add: duplicate_hash_count)
    ultimately show ?thesis using assms by simp
  next
    case False
    then show ?thesis by (rule addCredential_count)
  qed
  then have "duplicate_hash ?h ?c1" by (simp add: duplicate_hash_count)
  then have "addCredential cred sb ?c1 = (None, ?c1)" by (rule addCredential_duplicate)
  with one show ?thesis by simp
qed

theorem addCredential_idempotent_witness:
  "count_hash (Hash (cred_AttributeList card3)) demo_client \<le> 1
   \<and> addCredential card3 True (snd (addCredential card3 True demo_client))
       = (None, snd (addCredential card3 True demo_client))
   \<and> count_hash (Hash (cred_AttributeList card3))
        (snd (addCredential card3 True (snd (addCredential card3 True demo_client)))) = 1"
proof -
  have h: "count_hash (Hash (cred_AttributeList card3)) demo_client \<le> 1"
    by code_simp
  from h addCredential_idempotent [OF h, of True True] show ?thesis by blast
qed

subsection \<open>Removing a credential\<close>

text \<open>
  C8, as the code has it. For every credential stored at (id, i), after \<open>remove(id, i)\<close>
  succeeds:
  \<^item> the CL-signature of the removed attribute list is deleted from persistent storage;
  \<^item> the list stored for id is the former list without its element i (the attribute
    lists stored after index i move down by one), the lists of the other identifiers
    being as before;
  \<^item> a subsequent \<open>credential(id, i)\<close> reports "not present" (nil, nil) if and only if
    i was the last index of the list;
  \<^item> otherwise \<open>credential(id, i)\<close> is answered from the attribute list formerly at
    i + 1: it is an error when the signature of that list cannot be loaded (I/O error or
    no signature file), when its public key fails to load or is unknown, or when the
    credential cannot be built; and else it is the credential built from the secret key
    and the integers of that list, with its stored signature and its public key.
\<close>

theorem remove_then_credential:
  assumes l: "map_of (attributes client) ident = Some list"
    and i: "0 \<le> index" "index < int (length list)"
    and r: "remove ident index storenow client = (None, client')"
  shows "map_of (signatures (storage client')) (Hash (list ! nat index)) = None
         \<and> map_of (attributes client')
             = (map_of (attributes client))
                 (ident \<mapsto> take (nat index) list @ drop (Suc (nat index)) list)
         \<and> (fst (credential ident index client') = (None, None) \<longleftrightarrow> index + 1 = int (length list))
         \<and> (index + 1 < int (length list) \<longrightarrow>
              fst (credential ident index client') =
                (if ops (storage client') \<in> set (faults (storage client'))
                 then (None, Some StorageFailure)
                 else case map_of (signatures (storage client')) (Hash (list ! nat (index + 1))) of
                        None \<Rightarrow> (None, Some SignatureFileNotFound)
                      | Some s \<Rightarrow>
                          (case conf_PublicKey (Configuration client) (list ! nat (index + 1)) of
                             Inl e \<Rightarrow> (None, Some e)
                           | Inr None \<Rightarrow> (None, Some UnknownPublicKey)
                           | Inr (Some pk) \<Rightarrow>
                               (case conf_newCredential_fails (Configuration client)
                                       (list ! nat (index + 1)) of
                                  Some e \<Rightarrow> (None, Some e)
                                | None \<Rightarrow>
                                    (Some \<lparr>Attributes = secretkey client # Ints (list ! nat (index + 1)),
                                           Signature = s, Pk = pk,
                                           cred_CredentialType =
                                             conf_CredentialType (Configuration client)
                                               (list ! nat (index + 1)),
                                           cred_AttributeList = list ! nat (index + 1)\<rparr>,
                                     None)))))"
proof -
  let ?list' = "take (nat index) list @ drop (Suc (nat index)) list"
  note s = remove_success [OF l i r]
  note fr = remove_frame [OF l i r]
  from s(1) have m': "map_of (attributes client')
             = (map_of (attributes client))(ident \<mapsto> ?list')"
    by (simp add: update_conv')
  then have l': "map_of (attributes client') ident = Some ?list'" by simp
  from s(2) evict_lookup [of ident index client]
  have miss: "map_of (fst (creds ident client')) index = None"
    by (intro creds_miss) simp
  from credential_miss [OF miss l' i(1)]
  have "fst (credential ident index client') = (None, None) \<longleftrightarrow> int (length ?list') \<le> index" .
  moreover from i have "int (length ?list') \<le> index \<longleftrightarrow> index + 1 = int (length list)"
    by auto
  ultimately have np: "fst (credential ident index client') = (None, None)
      \<longleftrightarrow> index + 1 = int (length list)" by simp
  have nl: "index + 1 < int (length list) \<longrightarrow>
              fst (credential ident index client') =
                (if ops (storage client') \<in> set (faults (storage client'))
                 then (None, Some StorageFailure)
                 else case map_of (signatures (storage client')) (Hash (list ! nat (index + 1))) of
                        None \<Rightarrow> (None, Some SignatureFileNotFound)
                      | Some s \<Rightarrow>
                          (case conf_PublicKey (Configuration client) (list ! nat (index + 1)) of
                             Inl e \<Rightarrow> (None, Some e)
                           | Inr None \<Rightarrow> (None, Some UnknownPublicKey)
                           | Inr (Some pk) \<Rightarrow>
                               (case conf_newCredential_fails (Configuration client)
                                       (list ! nat (index + 1)) of
                                  Some e \<Rightarrow> (None, Some e)
                                | None \<Rightarrow>
                                    (Some \<lparr>Attributes = secretkey client # Ints (list ! nat (index + 1)),
                                           Signature = s, Pk = pk,
                                           cred_CredentialType =
                                             conf_CredentialType (Configuration client)
                                               (list ! nat (index + 1)),
                                           cred_AttributeList = list ! nat (index + 1)\<rparr>,
                                     None))))"
  proof
    assume more: "index + 1 < int (length list)"
    with i have len: "index < int (length ?list')" by auto
    from i more have nth: "?list' ! nat index = list ! nat (index + 1)"
      by (simp add: nth_append nat_add_distrib min_def)
    from credential_miss_stored [OF miss l' i(1) len]
    show "fst (credential ident index client') =
                (if ops (storage client') \<in> set (faults (storage client'))
                 then (None, Some StorageFailure)
                 else case map_of (signatures (storage client')) (Hash (list ! nat (index + 1))) of
                        None \<Rightarrow> (None, Some SignatureFileNotFound)
                      | Some s \<Rightarrow>
                          (case conf_PublicKey (Configuration client) (list ! nat (index + 1)) of
                             Inl e \<Rightarrow> (None, Some e)
                           | Inr None \<Rightarrow> (None, Some UnknownPublicKey)
                           | Inr (Some pk) \<Rightarrow>
                               (case conf_newCredential_fails (Configuration client)
                                       (list ! nat (index + 1)) of
                                  Some e \<Rightarrow> (None, Some e)
                                | None \<Rightarrow>
                                    (Some \<lparr>Attributes = secretkey client # Ints (list ! nat (index + 1)),
                                           Signature = s, Pk = pk,
                                           cred_CredentialType =
                                             conf_CredentialType (Configuration client)
                                               (list ! nat (index + 1)),
                                           cred_AttributeList = list ! nat (index + 1)\<rparr>,
                                     None))))"
      unfolding nth fr .
  qed
  from s(3) m' np nl show ?thesis by (intro conjI)
qed

theorem remove_then_credential_witness:
  "map_of (attributes demo_client) ''irma-demo.RU.studentCard'' = Some [card1, card2]
   \<and> (0::int) \<le> 1 \<and> 1 < int (length [card1, card2])
   \<and> remove ''irma-demo.RU.studentCard'' 1 True demo_client = (None, snd (remove ''irma-demo.RU.studentCard'' 1 True demo_client))
   \<and> map_of (signatures (storage (snd (remove ''irma-demo.RU.studentCard'' 1 True demo_client)))) (Hash ([card1, card2] ! nat 1)) = None
   \<and> map_of (attributes (snd (remove ''irma-demo.RU.studentCard'' 1 True demo_client)))
       = (map_of (attributes demo_client))
           (''irma-demo.RU.studentCard'' \<mapsto> take (nat 1) [card1, card2] @ drop (Suc (nat 1)) [card1, card2])
   \<and> fst (credential ''irma-demo.RU.studentCard'' 1 (snd (remove ''irma-demo.RU.studentCard'' 1 True demo_client))) = (None, None)
   \<and> (1::int) + 1 = int (length [card1, card2])
   \<and> (0::int) \<le> 0 \<and> 0 < int (length [card1, card2])
   \<and> remove ''irma-demo.RU.studentCard'' 0 True demo_client = (None, snd (remove ''irma-demo.RU.studentCard'' 0 True demo_client))
   \<and> (0::int) + 1 < int (length [card1, card2])
   \<and> map_of (signatures (storage (snd (remove ''irma-demo.RU.studentCard'' 0 True demo_client)))) (Hash ([card1, card2] ! nat 0)) = None
   \<and> fst (credential ''irma-demo.RU.studentCard'' 0 (snd (remove ''irma-demo.RU.studentCard'' 0 True demo_client)))
       = (Some \<lparr>Attributes = [42, 1, 20], Signature = 22, Pk = 7,
                cred_CredentialType = Some studentCard, cred_AttributeList = card2\<rparr>, None)"
proof -
  have l: "map_of (attributes demo_client) ''irma-demo.RU.studentCard'' = Some [card1, card2]"
    by (simp add: demo_client_def)
  have i1: "(0::int) \<le> 1" "1 < int (length [card1, card2])" by simp_all
  have i0: "(0::int) \<le> 0" "0 < int (length [card1, card2])" by simp_all
  have "fst (remove ''irma-demo.RU.studentCard'' 1 True demo_client) = None" by code_simp
  then have r1: "remove ''irma-demo.RU.studentCard'' 1 True demo_client = (None, snd (remove ''irma-demo.RU.studentCard'' 1 True demo_client))"
    by (metis prod.collapse)
  have "fst (remove ''irma-demo.RU.studentCard'' 0 True demo_client) = None" by code_simp
  then have r0: "remove ''irma-demo.RU.studentCard'' 0 True demo_client = (None, snd (remove ''irma-demo.RU.studentCard'' 0 True demo_client))"
    by (metis prod.collapse)
  note t1 = remove_then_credential [OF l i1 r1]
  note t0 = remove_then_credential [OF l i0 r0]
  have last: "(1::int) + 1 = int (length [card1, card2])" by simp
  have more: "(0::int) + 1 < int (length [card1, card2])" by simp
  from t1 last have a: "fst (credential ''irma-demo.RU.studentCard'' 1 (snd (remove ''irma-demo.RU.studentCard'' 1 True demo_client))) = (None, None)" by blast
  from t0 more have b: "fst (credential ''irma-demo.RU.studentCard'' 0 (snd (remove ''irma-demo.RU.studentCard'' 0 True demo_client))) =
     (if ops (storage (snd (remove ''irma-demo.RU.studentCard'' 0 True demo_client))) \<in> set (faults (storage (snd (remove ''irma-demo.RU.studentCard'' 0 True demo_client))))
                 then (None, Some StorageFailure)
                 else case map_of (signatures (storage (snd (remove ''irma-demo.RU.studentCard'' 0 True demo_client)))) (Hash ([card1, card2] ! nat (0 + 1))) of
                        None \<Rightarrow> (None, Some SignatureFileNotFound)
                      | Some s \<Rightarrow>
                          (case conf_PublicKey (Configuration demo_client) ([card1, card2] ! nat (0 + 1)) of
                             Inl e \<Rightarrow> (None, Some e)
                           | Inr None \<Rightarrow> (None, Some UnknownPublicKey)
                           | Inr (Some pk) \<Rightarrow>
                               (case conf_newCredential_fails (Configuration demo_client)
                                       ([card1, card2] ! nat (0 + 1)) of
                                  Some e \<Rightarrow> (None, Some e)
                                | None \<Rightarrow>
                                    (Some \<lparr>Attributes = secretkey demo_client # Ints ([card1, card2] ! nat (0 + 1)),
                                           Signature = s, Pk = pk,
                                           cred_CredentialType =
                                             conf_CredentialType (Configuration demo_client)
                                               ([card1, card2] ! nat (0 + 1)),
                                           cred_AttributeList = [card1, card2] ! nat (0 + 1)\<rparr>,
                                     None))))"
    by blast
  have c: "(if ops (storage (snd (remove ''irma-demo.RU.studentCard'' 0 True demo_client))) \<in> set (faults (storage (snd (remove ''irma-demo.RU.studentCard'' 0 True demo_client))))
                 then (None, Some StorageFailure)
                 else case map_of (signatures (storage (snd (remove ''irma-demo.RU.studentCard'' 0 True demo_client)))) (Hash ([card1, card2] ! nat (0 + 1))) of
                        None \<Rightarrow> (None, Some SignatureFileNotFound)
                      | Some s \<Rightarrow>
                          (case conf_PublicKey (Configuration demo_client) ([card1, card2] ! nat (0 + 1)) of
                             Inl e \<Rightarrow> (None, Some e)
                           | Inr None \<Rightarrow> (None, Some UnknownPublicKey)
                           | Inr (Some pk) \<Rightarrow>
                               (case conf_newCredential_fails (Configuration demo_client)
                                       ([card1, card2] ! nat (0 + 1)) of
                                  Some e \<Rightarrow> (None, Some e)
                                | None \<Rightarrow>
                                    (Some \<lparr>Attributes = secretkey demo_client # Ints ([card1, card2] ! nat (0 + 1)),
                                           Signature = s, Pk = pk,
                                           cred_CredentialType =
                                             conf_CredentialType (Configuration demo_client)
                                               ([card1, card2] ! nat (0 + 1)),
                                           cred_AttributeList = [card1, card2] ! nat (0 + 1)\<rparr>,
                                     None))))
       = (Some \<lparr>Attributes = [42, 1, 20], Signature = 22, Pk = 7,
                cred_CredentialType = Some studentCard, cred_AttributeList = card2\<rparr>, None)"
    by code_simp
  from b c have d: "fst (credential ''irma-demo.RU.studentCard'' 0 (snd (remove ''irma-demo.RU.studentCard'' 0 True demo_client)))
       = (Some \<lparr>Attributes = [42, 1, 20], Signature = 22, Pk = 7,
                cred_CredentialType = Some studentCard, cred_AttributeList = card2\<rparr>, None)"
    by (rule trans)
  from t1 have e: "map_of (signatures (storage (snd (remove ''irma-demo.RU.studentCard'' 1 True demo_client)))) (Hash ([card1, card2] ! nat 1)) = None"
    and f: "map_of (attributes (snd (remove ''irma-demo.RU.studentCard'' 1 True demo_client)))
       = (map_of (attributes demo_client))
           (''irma-demo.RU.studentCard'' \<mapsto> take (nat 1) [card1, card2] @ drop (Suc (nat 1)) [card1, card2])"
    by blast+
  from t0 have g: "map_of (signatures (storage (snd (remove ''irma-demo.RU.studentCard'' 0 True demo_client)))) (Hash ([card1, card2] ! nat 0)) = None"
    by blast
  from l i1 r1 e f a last i0 r0 more g d show ?thesis by (intro conjI)
qed

text \<open>
  The claim as the spec states it fails when another credential of the type is stored
  after the removed one: with the two student cards, \<open>remove(id, 0)\<close> succeeds and
  \<open>credential(id, 0)\<close> then returns the credential of the second card.
\<close>

theorem remove_then_credential_counterexample:
  "map_of (attributes demo_client) ''irma-demo.RU.studentCard'' = Some [card1, card2]
   \<and> fst (remove ''irma-demo.RU.studentCard'' 0 True demo_client) = None
   \<and> fst (credential ''irma-demo.RU.studentCard'' 0
            (snd (remove ''irma-demo.RU.studentCard'' 0 True demo_client)))
       = (Some \<lparr>Attributes = [42, 1, 20], Signature = 22, Pk = 7,
                cred_CredentialType = Some studentCard, cred_AttributeList = card2\<rparr>, None)"
  by code_simp

subsection \<open>Removal of a credential that is not there\<close>

text \<open>
  C10. \<open>remove(id, index)\<close> called with an identifier that has no stored attribute
  list, or with an index greater than or equal to the length of the stored list, returns
  the error "no such credential" and the client it returns is the client it was given:
  attributes, credentials cache, persisted signatures and log are all unchanged.
\<close>

theorem remove_missing_unchanged:
  assumes "map_of (attributes client) ident = None
           \<or> (\<exists>list. map_of (attributes client) ident = Some list \<and> index \<ge> int (length list))"
  shows "remove ident index storenow client = (Some (NoSuchCredential ident index), client)"
  using assms by (auto simp: remove_def)

theorem remove_missing_unchanged_witness:
  "map_of (attributes demo_client) ''pbdf.pbdf.email'' = None
   \<and> remove ''pbdf.pbdf.email'' 0 True demo_client
       = (Some (NoSuchCredential ''pbdf.pbdf.email'' 0), demo_client)
   \<and> map_of (attributes demo_client) ''irma-demo.RU.studentCard'' = Some [card1, card2]
   \<and> (2::int) \<ge> int (length [card1, card2])
   \<and> remove ''irma-demo.RU.studentCard'' 2 True demo_client
       = (Some (NoSuchCredential ''irma-demo.RU.studentCard'' 2), demo_client)"
proof -
  have a: "map_of (attributes demo_client) ''pbdf.pbdf.email'' = None"
    by (simp add: demo_client_def)
  have b: "map_of (attributes demo_client) ''irma-demo.RU.studentCard'' = Some [card1, card2]"
    by (simp add: demo_client_def)
  from a have "remove ''pbdf.pbdf.email'' 0 True demo_client
       = (Some (NoSuchCredential ''pbdf.pbdf.email'' 0), demo_client)"
    by (intro remove_missing_unchanged) simp
  moreover from b have "remove ''irma-demo.RU.studentCard'' 2 True demo_client
       = (Some (NoSuchCredential ''irma-demo.RU.studentCard'' 2), demo_client)"
    by (intro remove_missing_unchanged) simp
  ultimately show ?thesis using a b by simp
qed

section \<open>The text form of a public key identifier (keyshare.go)\<close>

text \<open>
  \<open>strconv.Atoi\<close> of the Go library (a 64-bit \<open>int\<close>): an optional sign, then one or
  more decimal digits; \<open>ErrSyntax\<close> with value 0 otherwise, \<open>ErrRange\<close> with the
  nearest bound when the number does not fit. Strings are sequences of bytes.
\<close>

datatype NumError = ErrSyntax | ErrRange

definition is_digit :: "char \<Rightarrow> bool" where
  "is_digit c = (48 \<le> (of_char c :: int) \<and> (of_char c :: int) \<le> 57)"

definition digit_val :: "char \<Rightarrow> int" where
  "digit_val c = of_char c - 48"

definition digit_char :: "int \<Rightarrow> char" where
  "digit_char d = char_of (48 + d)"

definition decimal_value :: "string \<Rightarrow> int" where
  "decimal_value ds = foldl (\<lambda>n ch. n * 10 + digit_val ch) 0 ds"

text \<open>The verb \<open>%d\<close> of \<open>fmt.Sprintf\<close> on a number that is not negative.\<close>

function decimal :: "int \<Rightarrow> string" where
  "decimal n = (if n < 10 then [digit_char n] else decimal (n div 10) @ [digit_char (n mod 10)])"
  by pat_completeness auto
termination
  by (relation "measure nat") auto

declare decimal.simps [simp del]

definition Atoi :: "string \<Rightarrow> int \<times> NumError option" where
  "Atoi s =
     (let neg = (s \<noteq> [] \<and> hd s = CHR ''-'');
          ds = (if s \<noteq> [] \<and> (hd s = CHR ''-'' \<or> hd s = CHR ''+'') then tl s else s)
      in if ds = [] \<or> \<not> list_all is_digit ds then (0, Some ErrSyntax)
         else
           let n = decimal_value ds
           in if \<not> neg \<and> n > 2 ^ 63 - 1 then (2 ^ 63 - 1, Some ErrRange)
              else if neg \<and> n > 2 ^ 63 then (- (2 ^ 63), Some ErrRange)
              else (if neg then - n else n, None))"

text \<open>\<open>strings.LastIndex(str, "-")\<close>, for a separator of one byte: -1 when it is absent.\<close>

definition LastIndex :: "string \<Rightarrow> char \<Rightarrow> int" where
  "LastIndex s c =
     (if c \<in> set s then int (length s) - 1 - int (length (takeWhile (\<lambda>x. x \<noteq> c) (rev s)))
      else - 1)"

text \<open>
  \<open>publicKeyIdentifier\<close> (keyshare.go, lines 91 to 112). \<open>Counter\<close> is a Go \<open>uint\<close>,
  64 bits wide; \<open>uint(counter)\<close> is \<open>word_of_int\<close>. \<open>UnmarshalText\<close> returns the
  error, or the identifier it stores into its receiver.
\<close>

record publicKeyIdentifier =
  Issuer :: string
  Counter :: "64 word"

datatype pki_error = InvalidPublicKeyIdentifier | NumErr NumError

definition UnmarshalText :: "string \<Rightarrow> pki_error + publicKeyIdentifier" where
  "UnmarshalText str =
     (let index = LastIndex str CHR ''-''
      in if index = - 1 then Inl InvalidPublicKeyIdentifier
         else
           (case Atoi (drop (nat (index + 1)) str) of
              (counter, Some err) \<Rightarrow> Inl (NumErr err)
            | (counter, None) \<Rightarrow>
                Inr \<lparr>Issuer = take (nat index) str, Counter = word_of_int counter\<rparr>))"

definition MarshalText :: "publicKeyIdentifier \<Rightarrow> string" where
  "MarshalText pki = Issuer pki @ ''-'' @ decimal (uint (Counter pki))"

text \<open>A decimal numeral as \<open>%d\<close> prints it: digits only, no sign, no leading zero.\<close>

definition canonical_decimal :: "string \<Rightarrow> bool" where
  "canonical_decimal ds =
     (ds \<noteq> [] \<and> list_all is_digit ds \<and> (length ds = 1 \<or> hd ds \<noteq> CHR ''0''))"

subsection \<open>Auxiliary facts\<close>

lemma digit_val_char [simp]: "0 \<le> d \<Longrightarrow> d < 10 \<Longrightarrow> digit_val (digit_char d) = d"
  by (simp add: digit_val_def digit_char_def)

lemma is_digit_char [simp]: "0 \<le> d \<Longrightarrow> d < 10 \<Longrightarrow> is_digit (digit_char d)"
  by (simp add: is_digit_def digit_char_def)

lemma digit_char_val [simp]: "is_digit c \<Longrightarrow> digit_char (digit_val c) = c"
  by (simp add: is_digit_def digit_char_def digit_val_def)

lemma digit_val_less: "is_digit c \<Longrightarrow> digit_val c < 10"
  by (auto simp add: is_digit_def digit_val_def)

lemma dash_not_digit [simp]: "\<not> is_digit CHR ''-''" "\<not> is_digit CHR ''+''"
  by (simp_all add: is_digit_def)

lemma decimal_value_snoc [simp]:
  "decimal_value (ds @ [c]) = decimal_value ds * 10 + digit_val c"
  by (simp add: decimal_value_def)

lemma decimal_small: "n < 10 \<Longrightarrow> decimal n = [digit_char n]"
  by (subst decimal.simps) simp

lemma decimal_large: "\<not> n < 10 \<Longrightarrow> decimal n = decimal (n div 10) @ [digit_char (n mod 10)]"
  by (subst decimal.simps) simp

lemma decimal_digits: "0 \<le> n \<Longrightarrow> list_all is_digit (decimal n) \<and> decimal n \<noteq> []"
proof (induction n rule: decimal.induct)
  case (1 n)
  show ?case
  proof (cases "n < 10")
    case True
    with 1 show ?thesis by (simp add: decimal_small)
  next
    case False
    with 1 show ?thesis by (simp add: decimal_large)
  qed
qed

lemma decimal_value_decimal: "0 \<le> n \<Longrightarrow> decimal_value (decimal n) = n"
proof (induction n rule: decimal.induct)
  case (1 n)
  show ?case
  proof (cases "n < 10")
    case True
    with 1 show ?thesis by (simp add: decimal_small decimal_value_def)
  next
    case False
    with 1 show ?thesis by (simp add: decimal_large)
  qed
qed

lemma decimal_value_nonneg: "list_all is_digit ds \<Longrightarrow> 0 \<le> decimal_value ds"
proof (induction ds rule: rev_induct)
  case Nil
  show ?case by (simp add: decimal_value_def)
next
  case (snoc c ds)
  then have "0 \<le> decimal_value ds" by simp
  moreover from snoc.prems have "0 \<le> digit_val c" by (simp add: is_digit_def digit_val_def)
  ultimately show ?case by simp
qed

lemma char_of_48: "char_of (48::int) = CHR ''0''"
  by code_simp

lemma zero_char: "is_digit c \<Longrightarrow> digit_val c = 0 \<Longrightarrow> c = CHR ''0''"
proof -
  assume "is_digit c" and "digit_val c = 0"
  then have "of_char c = (48::int)" by (simp add: digit_val_def)
  then have "char_of (of_char c :: int) = char_of (48::int)" by simp
  then show ?thesis by (simp add: char_of_48)
qed

lemma decimal_of_value:
  assumes "ds \<noteq> []" and "list_all is_digit ds" and "hd ds \<noteq> CHR ''0''"
  shows "0 < decimal_value ds \<and> decimal (decimal_value ds) = ds"
  using assms
proof (induction ds rule: rev_induct)
  case Nil
  then show ?case by simp
next
  case (snoc c ds)
  from snoc.prems have dc: "is_digit c" by simp
  then have c: "0 \<le> digit_val c" "digit_val c < 10"
    by (simp_all add: is_digit_def digit_val_def)
  show ?case
  proof (cases "ds = []")
    case True
    with snoc.prems dc have "digit_val c \<noteq> 0" using zero_char by auto
    with c True dc show ?thesis by (simp add: decimal_value_def decimal_small)
  next
    case False
    with snoc have ih: "0 < decimal_value ds" "decimal (decimal_value ds) = ds" by simp_all
    let ?v = "decimal_value ds * 10 + digit_val c"
    from ih(1) c have big: "\<not> ?v < 10" by simp
    from c have "?v div 10 = decimal_value ds" "?v mod 10 = digit_val c" by simp_all
    with big ih c dc show ?thesis by (simp add: decimal_large)
  qed
qed

lemma decimal_canonical:
  assumes "canonical_decimal ds"
  shows "decimal (decimal_value ds) = ds"
proof (cases "hd ds = CHR ''0''")
  case False
  with assms show ?thesis by (simp add: canonical_decimal_def decimal_of_value)
next
  case True
  with assms have "length ds = 1" by (simp add: canonical_decimal_def)
  with True have "ds = ''0''" by (cases ds) simp_all
  then show ?thesis by (simp add: decimal_value_def decimal_small digit_val_def digit_char_def char_of_48)
qed

lemma LastIndex_append:
  assumes "c \<notin> set ds"
  shows "LastIndex (iss @ c # ds) c = int (length iss)"
proof -
  from assms have "takeWhile (\<lambda>x. x \<noteq> c) (rev ds @ c # rev iss) = rev ds"
    by (auto simp add: takeWhile_tail)
  then show ?thesis by (simp add: LastIndex_def)
qed

lemma LastIndex_split:
  assumes "LastIndex s c \<noteq> - 1"
  shows "0 \<le> LastIndex s c
         \<and> s = take (nat (LastIndex s c)) s @ c # drop (nat (LastIndex s c + 1)) s
         \<and> c \<notin> set (drop (nat (LastIndex s c + 1)) s)"
proof -
  from assms have mem: "c \<in> set s" by (auto simp: LastIndex_def split: if_splits)
  define t where "t = takeWhile (\<lambda>x. x \<noteq> c) (rev s)"
  define r where "r = tl (dropWhile (\<lambda>x. x \<noteq> c) (rev s))"
  from mem have "dropWhile (\<lambda>x. x \<noteq> c) (rev s) \<noteq> []" by (simp add: dropWhile_eq_Nil_conv)
  moreover from this have "hd (dropWhile (\<lambda>x. x \<noteq> c) (rev s)) = c"
    using hd_dropWhile [of "\<lambda>x. x \<noteq> c" "rev s"] by simp
  ultimately have "dropWhile (\<lambda>x. x \<noteq> c) (rev s) = c # r"
    by (cases "dropWhile (\<lambda>x. x \<noteq> c) (rev s)") (simp_all add: r_def)
  then have "rev s = t @ c # r"
    using takeWhile_dropWhile_id [of "\<lambda>x. x \<noteq> c" "rev s"] by (simp add: t_def)
  then have s: "s = rev r @ c # rev t" by (simp add: rev_swap)
  have nt: "c \<notin> set t" by (auto simp: t_def dest: set_takeWhileD)
  with s have li: "LastIndex s c = int (length r)"
    using LastIndex_append [of c "rev t" "rev r"] by simp
  have n: "nat (int (length r)) = length r" "nat (int (length r) + 1) = Suc (length r)" by simp_all
  from s have "take (length r) s = rev r" "drop (Suc (length r)) s = rev t" by simp_all
  with s nt show ?thesis unfolding li n by simp
qed

lemma Atoi_digits:
  assumes "ds \<noteq> []" and "list_all is_digit ds"
  shows "Atoi ds = (if decimal_value ds > 2 ^ 63 - 1 then (2 ^ 63 - 1, Some ErrRange)
                    else (decimal_value ds, None))"
proof -
  from assms have "is_digit (hd ds)" by (cases ds) simp_all
  then have "hd ds \<noteq> CHR ''-''" "hd ds \<noteq> CHR ''+''" by auto
  with assms show ?thesis by (simp add: Atoi_def Let_def)
qed

subsection \<open>Round trips\<close>

text \<open>
  C6, as the code has it. For every identifier whose counter is below \<open>2^63\<close>,
  unmarshalling the text produced by \<open>MarshalText\<close> yields the identifier back; and
  for every string accepted by \<open>UnmarshalText\<close> whose part after the last \<open>-\<close> is a
  decimal numeral without sign and without leading zero, marshalling the parsed
  identifier reproduces the string.
\<close>

theorem publicKeyIdentifier_roundtrip:
  "(uint (Counter pki) < 2 ^ 63 \<longrightarrow> UnmarshalText (MarshalText pki) = Inr pki)
   \<and> (UnmarshalText s = Inr p \<and> canonical_decimal (drop (nat (LastIndex s CHR ''-'' + 1)) s)
        \<longrightarrow> MarshalText p = s)"
proof (intro conjI impI)
  assume small: "uint (Counter pki) < 2 ^ 63"
  let ?n = "uint (Counter pki)"
  have n0: "0 \<le> ?n" by simp
  from decimal_digits [OF n0] have dg: "list_all is_digit (decimal ?n)" "decimal ?n \<noteq> []" by simp_all
  then have "CHR ''-'' \<notin> set (decimal ?n)" by (auto simp: list_all_iff)
  then have li: "LastIndex (Issuer pki @ CHR ''-'' # decimal ?n) CHR ''-'' = int (length (Issuer pki))"
    by (rule LastIndex_append)
  from small have "Atoi (decimal ?n) = (?n, None)"
    by (simp add: Atoi_digits [OF dg(2) dg(1)] decimal_value_decimal)
  moreover have "nat (int (length (Issuer pki)) + 1) = Suc (length (Issuer pki))" by simp
  ultimately show "UnmarshalText (MarshalText pki) = Inr pki"
    using li by (simp add: UnmarshalText_def MarshalText_def Let_def)
next
  assume a: "UnmarshalText s = Inr p \<and> canonical_decimal (drop (nat (LastIndex s CHR ''-'' + 1)) s)"
  let ?i = "LastIndex s CHR ''-''"
  let ?ds = "drop (nat (?i + 1)) s"
  from a have ok: "UnmarshalText s = Inr p" and can: "canonical_decimal ?ds" by simp_all
  from ok have found: "?i \<noteq> - 1" by (auto simp: UnmarshalText_def Let_def split: if_splits)
  from can have dg: "?ds \<noteq> []" "list_all is_digit ?ds" by (simp_all add: canonical_decimal_def)
  from ok found have at: "snd (Atoi ?ds) = None"
    and p: "p = \<lparr>Issuer = take (nat ?i) s, Counter = word_of_int (fst (Atoi ?ds))\<rparr>"
    by (auto simp: UnmarshalText_def Let_def split: prod.splits option.splits)
  from at have range: "\<not> decimal_value ?ds > 2 ^ 63 - 1" and v: "fst (Atoi ?ds) = decimal_value ?ds"
    by (auto simp: Atoi_digits [OF dg] split: if_splits)
  have v0: "0 \<le> decimal_value ?ds" by (rule decimal_value_nonneg [OF dg(2)])
  with range have "uint (word_of_int (decimal_value ?ds) :: 64 word) = decimal_value ?ds"
    by (simp add: uint_word_of_int take_bit_int_eq_self)
  with p v have "MarshalText p = take (nat ?i) s @ ''-'' @ decimal (decimal_value ?ds)"
    by (simp add: MarshalText_def)
  also have "\<dots> = take (nat ?i) s @ CHR ''-'' # ?ds"
    by (simp add: decimal_canonical [OF can])
  also have "\<dots> = s" using LastIndex_split [OF found] by simp
  finally show "MarshalText p = s" .
qed

theorem publicKeyIdentifier_roundtrip_witness:
  "uint (Counter \<lparr>Issuer = ''A.B.C'', Counter = 7\<rparr>) < 2 ^ 63
   \<and> UnmarshalText (MarshalText \<lparr>Issuer = ''A.B.C'', Counter = 7\<rparr>)
       = Inr \<lparr>Issuer = ''A.B.C'', Counter = 7\<rparr>
   \<and> UnmarshalText ''A.B.C-7'' = Inr \<lparr>Issuer = ''A.B.C'', Counter = 7\<rparr>
   \<and> canonical_decimal (drop (nat (LastIndex ''A.B.C-7'' CHR ''-'' + 1)) ''A.B.C-7'')
   \<and> MarshalText \<lparr>Issuer = ''A.B.C'', Counter = 7\<rparr> = ''A.B.C-7''"
proof -
  have a: "uint (Counter \<lparr>Issuer = ''A.B.C'', Counter = 7\<rparr>) < 2 ^ 63" by simp
  have b: "UnmarshalText ''A.B.C-7'' = Inr \<lparr>Issuer = ''A.B.C'', Counter = 7\<rparr>
           \<and> canonical_decimal (drop (nat (LastIndex ''A.B.C-7'' CHR ''-'' + 1)) ''A.B.C-7'')"
    by code_simp
  from publicKeyIdentifier_roundtrip
         [of "\<lparr>Issuer = ''A.B.C'', Counter = 7\<rparr>" "''A.B.C-7''" "\<lparr>Issuer = ''A.B.C'', Counter = 7\<rparr>"] a b
  show ?thesis by blast
qed

text \<open>
  The claim as the spec states it fails in both directions: a counter of \<open>2^63\<close> is
  printed by \<open>MarshalText\<close> and refused by \<open>Atoi\<close>, and \<open>Atoi\<close> accepts leading
  zeros (and a plus sign), which \<open>MarshalText\<close> does not print.
\<close>

theorem publicKeyIdentifier_roundtrip_counterexample:
  "UnmarshalText (MarshalText \<lparr>Issuer = ''A.B.C'', Counter = 9223372036854775808\<rparr>)
     = Inl (NumErr ErrRange)
   \<and> UnmarshalText ''A.B.C-07'' = Inr \<lparr>Issuer = ''A.B.C'', Counter = 7\<rparr>
   \<and> MarshalText \<lparr>Issuer = ''A.B.C'', Counter = 7\<rparr> = ''A.B.C-7''
   \<and> UnmarshalText ''A.B.C-+7'' = Inr \<lparr>Issuer = ''A.B.C'', Counter = 7\<rparr>"
  by code_simp

section \<open>PIN hashing (keyshare.go, HashedPin)\<close>

text \<open>
  \<open>base64.StdEncoding.EncodeToString\<close> of the Go library (RFC 4648, with padding):
  three bytes give four characters of the alphabet \<open>encodeStd\<close>; one or two remaining
  bytes give two or three characters and \<open>=\<close> signs.
\<close>

type_synonym byte = "8 word"

definition encodeStd :: string where
  "encodeStd = ''ABCDEFGHIJKLMNOPQRSTUVWXYZabcdefghijklmnopqrstuvwxyz0123456789+/''"

definition encode :: "int \<Rightarrow> char" where
  "encode v = encodeStd ! nat (v mod 64)"

fun EncodeToString :: "byte list \<Rightarrow> string" where
  "EncodeToString (a # b # c # src) =
     (let val = uint a * 65536 + uint b * 256 + uint c
      in [encode (val div 262144), encode (val div 4096), encode (val div 64), encode val]
         @ EncodeToString src)"
| "EncodeToString [a, b] =
     (let val = uint a * 65536 + uint b * 256
      in [encode (val div 262144), encode (val div 4096), encode (val div 64), CHR ''=''])"
| "EncodeToString [a] =
     (let val = uint a * 65536
      in [encode (val div 262144), encode (val div 4096), CHR ''='', CHR ''=''])"
| "EncodeToString [] = []"

text \<open>
  \<open>keyshareServer\<close> (lines 56 to 61) and \<open>HashedPin\<close> (lines 138 to 144). A Go string
  is its bytes, so \<open>[]byte(pin)\<close> maps each character to its byte. \<open>sha256.Sum256\<close>
  belongs to the Go library and is a parameter.
\<close>

record keyshareServer =
  Username :: string
  Nonce :: "byte list"
  kss_SchemeManagerIdentifier :: string
  token :: string

definition HashedPin :: "(byte list \<Rightarrow> byte list) \<Rightarrow> keyshareServer \<Rightarrow> string \<Rightarrow> string" where
  "HashedPin Sum256 ks pin =
     (let hash = Sum256 (Nonce ks @ map of_char pin)
      in EncodeToString hash @ [CHR 0x0A])"

text \<open>Two records for the examples, and a stand-in for the digest that never collides.\<close>

definition kss1 :: keyshareServer where
  "kss1 = \<lparr>Username = ''alice'', Nonce = [1, 2, 3], kss_SchemeManagerIdentifier = ''test'',
           token = ''t1''\<rparr>"

definition kss2 :: keyshareServer where
  "kss2 = \<lparr>Username = ''alice'', Nonce = [4, 5, 6], kss_SchemeManagerIdentifier = ''test'',
           token = ''t1''\<rparr>"

definition plain_digest :: "byte list \<Rightarrow> byte list" where
  "plain_digest bs = bs"


subsection \<open>Auxiliary facts\<close>

lemma encodeStd_distinct: "distinct encodeStd" "length encodeStd = 64"
  by (simp_all add: encodeStd_def)


lemma encode_mem: "encode v \<in> set encodeStd"
  by (simp add: encode_def encodeStd_distinct(2) nat_less_iff)

lemma encode_not_special [simp]: "encode v \<noteq> CHR ''=''" "encode v \<noteq> CHR 0x0A"
proof -
  have "CHR ''='' \<notin> set encodeStd" "CHR 0x0A \<notin> set encodeStd" by (simp_all add: encodeStd_def)
  with encode_mem [of v] show "encode v \<noteq> CHR ''=''" "encode v \<noteq> CHR 0x0A" by auto
qed












lemma encode_not_special' [simp]: "CHR ''='' \<noteq> encode v" "CHR 0x0A \<noteq> encode v"
  using encode_not_special [of v] by metis+




subsection \<open>The hashed PIN\<close>




section \<open>The keyshare session (keyshare.go)\<close>

text \<open>
  The session is run by \<open>startKeyshareSession\<close>, which leads into \<open>VerifyPin\<close>,
  \<open>GetCommitments\<close>, \<open>GetProofPs\<close> and \<open>Finish\<close>. What it does is recorded as a
  trace of events in a record \<open>world\<close>: the calls of the session handler, the calls of
  \<open>RequestPin\<close>, and the HTTP requests, each with the transport (server and headers) as
  it is at the call. The record \<open>keyshareSession\<close> is the Go struct.

  Everything the session consults and that lies outside keyshare.go is gathered in a
  record \<open>env\<close>:
  \<^item> \<open>Distributed\<close> and \<open>KeyshareServer\<close>: \<open>conf.SchemeManagers[m].Distributed()\<close>
    and \<open>.KeyshareServer\<close>. The type \<open>SchemeManager\<close> is not among the sources; the
    model covers the sessions all of whose scheme managers are in the configuration (the
    lookup of an unknown one gives a nil pointer).
  \<^item> \<open>range_order\<close>: \<open>session.Identifiers().SchemeManagers\<close> is ranged over with a
    single loop variable that is used as a key of type \<open>SchemeManagerIdentifier\<close>, so it
    is a Go map (a set of identifiers), and Go does not fix the iteration order of a
    map. The \<open>k\<close>-th \<open>range\<close> of a run yields the keys in the order
    \<open>range_order k\<close>; the loops of the run are counted in \<open>ranges\<close>.
  \<^item> \<open>jwt_claims\<close>: \<open>ParseWithClaims\<close> of the token with the key of the scheme, claims
    validation skipped: \<open>None\<close> for an error (parsing or signature), otherwise the
    claim \<open>exp\<close> (0 when absent). \<open>now m\<close> is the reading \<open>time.Now().Unix()\<close> when
    the token of scheme \<open>m\<close> is examined.
  \<^item> \<open>kss_reply\<close>: the reply to the \<open>n\<close>-th HTTP request of the run.
  \<^item> \<open>Sum256\<close>, \<open>Challenge\<close>, \<open>jwt_ProofP\<close>, \<open>BuildDistributedProofList\<close>: the
    library operations on digests, proof builders and response tokens.
  The answers of the PIN requestor are a list of pairs (proceed, pin), one for each time
  the callback is invoked; when the list is used up the requestor does not call back and
  the session stays where it is.
\<close>

type_synonym SchemeManagerIdentifier = string

record RemoteError =
  Status :: int
  ErrorName :: string
  Message :: string

record SessionError =
  ErrorType :: string
  Info :: string
  RemoteError :: "RemoteError option"

record keysharePinStatus =
  pin_Status :: string
  pin_Message :: string

datatype ks_error =
    NotEnrolled SchemeManagerIdentifier
  | IssuanceUnsupported
  | Transport SessionError
  | UnrecognizedPinStatus
  | AtoiError NumError
  | JwtError
  | ProofListError

text \<open>
  Modelled from the spec: \<open>irma.HTTPTransport\<close> and \<open>irma.SessionError\<close> (their files
  are not among the sources). A transport is bound to a server and holds headers;
  \<open>SetHeader\<close> sets one header; \<open>Post\<close> sends the request with the headers and
  returns the error of the call or fills in the result. A reply that is not of the shape
  the call expects is the error \<open>malformed\<close>.
\<close>

record HTTPTransport =
  Server :: string
  headers :: "(string \<times> string) list"

definition NewHTTPTransport :: "string \<Rightarrow> HTTPTransport" where
  "NewHTTPTransport url = \<lparr>Server = url, headers = []\<rparr>"

definition SetHeader :: "string \<Rightarrow> string \<Rightarrow> HTTPTransport \<Rightarrow> HTTPTransport" where
  "SetHeader name val transport = transport\<lparr>headers := AList.update name val (headers transport)\<rparr>"

datatype body =
    PinMessage string string
  | PublicKeys "publicKeyIdentifier list"
  | ChallengeBody int

datatype reply =
    Failure SessionError
  | PinStatus keysharePinStatus
  | Commitments "(publicKeyIdentifier \<times> nat) list"
  | Response string

datatype message =
    ProofList "nat list"
  | IssueCommitmentMessage "nat list" int "(string \<times> string) list"

datatype event =
    KeyshareDone message
  | KeyshareCancelled
  | KeyshareBlocked SchemeManagerIdentifier int
  | KeyshareEnrollmentIncomplete SchemeManagerIdentifier
  | KeyshareEnrollmentDeleted SchemeManagerIdentifier
  | KeyshareError "SchemeManagerIdentifier option" ks_error
  | KeysharePin
  | KeysharePinOK
  | RequestPin int
  | Post HTTPTransport string body
  | NilDereference

record builder =
  pk_Issuer :: string
  pk_Counter :: "64 word"
  merged :: "nat list"

datatype request_kind = DisclosureRequest | SignatureRequest | IssuanceRequest

record SessionRequest =
  kind :: request_kind
  SchemeManagers :: "SchemeManagerIdentifier list"

record env =
  Distributed :: "SchemeManagerIdentifier \<Rightarrow> bool"
  KeyshareServer :: "SchemeManagerIdentifier \<Rightarrow> string"
  range_order :: "nat \<Rightarrow> SchemeManagerIdentifier list"
  jwt_claims :: "SchemeManagerIdentifier \<Rightarrow> string \<Rightarrow> int option"
  now :: "SchemeManagerIdentifier \<Rightarrow> int"
  kss_reply :: "nat \<Rightarrow> reply"
  Sum256 :: "byte list \<Rightarrow> byte list"
  Challenge :: "builder list \<Rightarrow> SessionRequest \<Rightarrow> int"
  jwt_ProofP :: "SchemeManagerIdentifier \<Rightarrow> string \<Rightarrow> nat option option"
  BuildDistributedProofList :: "builder list \<Rightarrow> int \<Rightarrow> nat option list option \<Rightarrow> nat list option"

record world =
  trace :: "event list"
  http_calls :: nat
  ranges :: nat

record keyshareSession =
  builders :: "builder list"
  session :: SessionRequest
  keyshareServers :: "(SchemeManagerIdentifier \<times> keyshareServer) list"
  keyshareServer :: "keyshareServer option"
  transports :: "(SchemeManagerIdentifier \<times> HTTPTransport) list"
  issuerProofNonce :: int
  pinCheck :: bool

definition emit :: "event \<Rightarrow> world \<Rightarrow> world" where
  "emit e w = w\<lparr>trace := trace w @ [e]\<rparr>"

definition next_range :: "env \<Rightarrow> world \<Rightarrow> SchemeManagerIdentifier list \<times> world" where
  "next_range env w = (range_order env (ranges w), w\<lparr>ranges := Suc (ranges w)\<rparr>)"

definition malformed :: SessionError where
  "malformed = \<lparr>ErrorType = ''serverResponse'', Info = [], RemoteError = None\<rparr>"

definition do_Post :: "env \<Rightarrow> HTTPTransport \<Rightarrow> string \<Rightarrow> body \<Rightarrow> world \<Rightarrow> reply \<times> world" where
  "do_Post env transport path b w =
     (kss_reply env (http_calls w),
      w\<lparr>trace := trace w @ [Post transport path b], http_calls := Suc (http_calls w)\<rparr>)"

text \<open>
  \<open>claims.VerifyExpiresAt(cmp, req)\<close> of the JWT library: with a claim \<open>exp\<close> of 0
  (absent) it is \<open>\<not> req\<close>, otherwise \<open>cmp \<le> exp\<close>.
\<close>

definition VerifyExpiresAt :: "int \<Rightarrow> int \<Rightarrow> bool \<Rightarrow> bool" where
  "VerifyExpiresAt exp cmp req = (if exp = 0 then \<not> req else cmp \<le> exp)"

text \<open>
  Modelled from the spec: \<open>irma.NewIssuerIdentifier(pk.Issuer).SchemeManagerIdentifier()\<close>
  (identifiers are hierarchical, scheme first): the part of the issuer before the first
  dot.
\<close>

definition SchemeManagerIdentifier_of :: "string \<Rightarrow> SchemeManagerIdentifier" where
  "SchemeManagerIdentifier_of issuer = takeWhile (\<lambda>c. c \<noteq> CHR ''.'') issuer"

text \<open>
  \<open>startKeyshareSession\<close>, lines 161 to 171: the loop that counts the distributed
  schemes and returns the first one that is not enrolled.
\<close>

fun preflight_enrolled ::
  "env \<Rightarrow> (SchemeManagerIdentifier \<times> keyshareServer) list \<Rightarrow> SchemeManagerIdentifier list \<Rightarrow> nat
     \<Rightarrow> SchemeManagerIdentifier + nat" where
  "preflight_enrolled env kss [] ksscount = Inr ksscount"
| "preflight_enrolled env kss (managerID # rest) ksscount =
     (if Distributed env managerID then
        (case map_of kss managerID of
           None \<Rightarrow> Inl managerID
         | Some k \<Rightarrow> preflight_enrolled env kss rest (Suc ksscount))
      else preflight_enrolled env kss rest ksscount)"

text \<open>
  Lines 191 to 222: the loop that creates the transports and examines the tokens.
  \<open>None\<close> is the nil dereference of \<open>ks.keyshareServer.Username\<close> for a scheme
  without record.
\<close>

fun preflight_transports ::
  "env \<Rightarrow> SchemeManagerIdentifier list \<Rightarrow> keyshareSession \<Rightarrow> keyshareSession option" where
  "preflight_transports env [] ks = Some ks"
| "preflight_transports env (managerID # rest) ks =
     (if \<not> Distributed env managerID then preflight_transports env rest ks
      else
        (case map_of (keyshareServers ks) managerID of
           None \<Rightarrow> None
         | Some k \<Rightarrow>
             let transport =
                   SetHeader ''X-IRMA-Keyshare-ProtocolVersion'' ''2''
                     (SetHeader ''Authorization'' (''Bearer '' @ token k)
                        (SetHeader ''X-IRMA-Keyshare-Username'' (Username k)
                           (NewHTTPTransport (KeyshareServer env managerID))));
                 ks1 = ks\<lparr>keyshareServer := Some k,
                          transports := AList.update managerID transport (transports ks)\<rparr>
             in (case jwt_claims env managerID (token k) of
                   None \<Rightarrow> preflight_transports env rest (ks1\<lparr>pinCheck := True\<rparr>)
                 | Some exp \<Rightarrow>
                     if \<not> VerifyExpiresAt exp (now env managerID + 60) True
                     then preflight_transports env rest (ks1\<lparr>pinCheck := True\<rparr>)
                     else preflight_transports env rest ks1)))"

text \<open>
  Lines 161 to 222 together: \<open>Inl\<close> is the world after a failed preflight, \<open>Inr\<close> the
  session struct and the world at line 224.
\<close>

definition preflight ::
  "env \<Rightarrow> builder list \<Rightarrow> SessionRequest \<Rightarrow> (SchemeManagerIdentifier \<times> keyshareServer) list \<Rightarrow> int
     \<Rightarrow> world \<Rightarrow> world + keyshareSession \<times> world" where
  "preflight env bs sess kss nonce w =
     (let (order1, w1) = next_range env w
      in case preflight_enrolled env kss order1 0 of
           Inl managerID \<Rightarrow> Inl (emit (KeyshareError (Some managerID) (NotEnrolled managerID)) w1)
         | Inr ksscount \<Rightarrow>
             if kind sess = IssuanceRequest \<and> ksscount > 1
             then Inl (emit (KeyshareError None IssuanceUnsupported) w1)
             else
               let ks = \<lparr>builders = bs, session = sess, keyshareServers = kss,
                         keyshareServer = None, transports = [], issuerProofNonce = nonce,
                         pinCheck = False\<rparr>;
                   (order2, w2) = next_range env w1
               in (case preflight_transports env order2 ks of
                     None \<Rightarrow> Inl (emit NilDereference w2)
                   | Some ks' \<Rightarrow> Inr (ks', w2)))"

text \<open>
  \<open>verifyPinWorker\<close> (lines 283 to 312) returns (success, tries, blocked, err), and the
  record and the transport as it leaves them (both are pointers in the source).
\<close>

type_synonym pin_result = "bool \<times> int \<times> int \<times> ks_error option"

definition verifyPinWorker ::
  "env \<Rightarrow> string \<Rightarrow> keyshareServer \<Rightarrow> HTTPTransport \<Rightarrow> world
     \<Rightarrow> pin_result \<times> keyshareServer \<times> HTTPTransport \<times> world" where
  "verifyPinWorker env pin kss transport w =
     (let pinmsg = PinMessage (Username kss) (HashedPin (Sum256 env) kss pin);
          (r, w1) = do_Post env transport ''users/verify/pin'' pinmsg w
      in case r of
           Failure err \<Rightarrow> ((False, 0, 0, Some (Transport err)), kss, transport, w1)
         | PinStatus pinresult \<Rightarrow>
             if pin_Status pinresult = ''success'' then
               let kss' = kss\<lparr>token := pin_Message pinresult\<rparr>
               in ((True, 0, 0, None), kss', SetHeader ''Authorization'' (token kss') transport, w1)
             else if pin_Status pinresult = ''failure'' then
               let (tries, err) = Atoi (pin_Message pinresult)
               in ((False, tries, 0, map_option AtoiError err), kss, transport, w1)
             else if pin_Status pinresult = ''error'' then
               let (blocked, err) = Atoi (pin_Message pinresult)
               in ((False, 0, blocked, map_option AtoiError err), kss, transport, w1)
             else ((False, 0, 0, Some UnrecognizedPinStatus), kss, transport, w1)
         | Commitments cs \<Rightarrow> ((False, 0, 0, Some (Transport malformed)), kss, transport, w1)
         | Response j \<Rightarrow> ((False, 0, 0, Some (Transport malformed)), kss, transport, w1))"

text \<open>
  \<open>verifyPinAttempt\<close> (lines 322 to 337). The named results are carried through the
  loop; \<open>manager\<close> is assigned by every iteration. \<open>None\<close> is a nil dereference
  (no record or no transport for a distributed scheme).
\<close>

type_synonym attempt_result = "bool \<times> int \<times> int \<times> SchemeManagerIdentifier \<times> ks_error option"

fun verifyPinAttempt_loop ::
  "env \<Rightarrow> string \<Rightarrow> SchemeManagerIdentifier list \<Rightarrow> attempt_result \<Rightarrow> keyshareSession \<Rightarrow> world
     \<Rightarrow> attempt_result option \<times> keyshareSession \<times> world" where
  "verifyPinAttempt_loop env pin [] r ks w = (Some r, ks, w)"
| "verifyPinAttempt_loop env pin (manager # rest) (success, tries, blocked, m0, err) ks w =
     (if \<not> Distributed env manager
      then verifyPinAttempt_loop env pin rest (success, tries, blocked, manager, err) ks w
      else
        (case map_of (keyshareServers ks) manager of
           None \<Rightarrow> (None, ks, w)
         | Some kss \<Rightarrow>
             (case map_of (transports ks) manager of
                None \<Rightarrow> (None, ks, w)
              | Some transport \<Rightarrow>
                  (case verifyPinWorker env pin kss transport w of
                     ((success', tries', blocked', err'), kss', transport', w') \<Rightarrow>
                       let ks' = ks\<lparr>keyshareServers := AList.update manager kss' (keyshareServers ks),
                                    transports := AList.update manager transport' (transports ks)\<rparr>
                       in if \<not> success' then (Some (success', tries', blocked', manager, err'), ks', w')
                          else verifyPinAttempt_loop env pin rest
                                 (success', tries', blocked', manager, err') ks' w'))))"

definition verifyPinAttempt ::
  "env \<Rightarrow> string \<Rightarrow> keyshareSession \<Rightarrow> world \<Rightarrow> attempt_result option \<times> keyshareSession \<times> world" where
  "verifyPinAttempt env pin ks w =
     (let (order, w1) = next_range env w
      in verifyPinAttempt_loop env pin order (False, 0, 0, [], None) ks w1)"

text \<open>\<open>GetCommitments\<close>, lines 343 to 358: the public keys per scheme manager.\<close>

fun collect_pkids ::
  "env \<Rightarrow> builder list \<Rightarrow> (SchemeManagerIdentifier \<times> publicKeyIdentifier list) list
     \<Rightarrow> (SchemeManagerIdentifier \<times> publicKeyIdentifier list) list" where
  "collect_pkids env [] pkids = pkids"
| "collect_pkids env (b # rest) pkids =
     (let managerID = SchemeManagerIdentifier_of (pk_Issuer b)
      in if \<not> Distributed env managerID then collect_pkids env rest pkids
         else
           let pkids1 = (case map_of pkids managerID of
                           None \<Rightarrow> AList.update managerID [] pkids
                         | Some l \<Rightarrow> pkids);
               l = (case map_of pkids1 managerID of None \<Rightarrow> [] | Some l \<Rightarrow> l)
           in collect_pkids env rest
                (AList.update managerID (l @ [\<lparr>Issuer = pk_Issuer b, Counter = pk_Counter b\<rparr>]) pkids1))"

text \<open>
  Lines 362 to 386: the loop that posts \<open>prove/getCommitments\<close>. \<open>Retry\<close> is the
  branch of lines 371 to 379 (status 403 and \<open>pinCheck\<close> false), \<open>Failed\<close> the one of
  lines 380 and 381.
\<close>

datatype commitments_result =
    Retry
  | Failed SchemeManagerIdentifier ks_error
  | Collected "(publicKeyIdentifier \<times> nat) list"
  | Panicked

fun merge_commitments ::
  "(publicKeyIdentifier \<times> nat) list \<Rightarrow> (publicKeyIdentifier \<times> nat) list \<Rightarrow> (publicKeyIdentifier \<times> nat) list" where
  "merge_commitments [] commitments = commitments"
| "merge_commitments ((pki, c) # rest) commitments = merge_commitments rest (AList.update pki c commitments)"

fun getCommitments_loop ::
  "env \<Rightarrow> (SchemeManagerIdentifier \<times> publicKeyIdentifier list) list \<Rightarrow> SchemeManagerIdentifier list
     \<Rightarrow> (publicKeyIdentifier \<times> nat) list \<Rightarrow> keyshareSession \<Rightarrow> world \<Rightarrow> commitments_result \<times> world" where
  "getCommitments_loop env pkids [] commitments ks w = (Collected commitments, w)"
| "getCommitments_loop env pkids (managerID # rest) commitments ks w =
     (if \<not> Distributed env managerID then getCommitments_loop env pkids rest commitments ks w
      else
        (case map_of (transports ks) managerID of
           None \<Rightarrow> (Panicked, w)
         | Some transport \<Rightarrow>
             (case do_Post env transport ''prove/getCommitments''
                     (PublicKeys (case map_of pkids managerID of None \<Rightarrow> [] | Some l \<Rightarrow> l)) w of
                (Commitments comms, w1) \<Rightarrow>
                  getCommitments_loop env pkids rest (merge_commitments comms commitments) ks w1
              | (r, w1) \<Rightarrow>
                  let err = (case r of Failure e \<Rightarrow> e | _ \<Rightarrow> malformed)
                  in if (case RemoteError err of None \<Rightarrow> False | Some re \<Rightarrow> Status re = 403)
                        \<and> \<not> pinCheck ks
                     then (Retry, w1)
                     else (Failed managerID (Transport err), w1))))"

text \<open>Lines 389 to 397: \<open>MergeProofPCommitment\<close> on the builders that have a commitment.\<close>

definition merge_builders :: "(publicKeyIdentifier \<times> nat) list \<Rightarrow> builder list \<Rightarrow> builder list" where
  "merge_builders commitments bs =
     map (\<lambda>b. case map_of commitments \<lparr>Issuer = pk_Issuer b, Counter = pk_Counter b\<rparr> of
                 None \<Rightarrow> b
               | Some comm \<Rightarrow> b\<lparr>merged := merged b @ [comm]\<rparr>) bs"

text \<open>\<open>GetProofPs\<close> (lines 405 to 426), \<open>Finish\<close> and \<open>finishDisclosureOrSigning\<close>.\<close>

fun getResponses_loop ::
  "env \<Rightarrow> int \<Rightarrow> SchemeManagerIdentifier list \<Rightarrow> (SchemeManagerIdentifier \<times> string) list
     \<Rightarrow> keyshareSession \<Rightarrow> world
     \<Rightarrow> (SchemeManagerIdentifier \<times> ks_error + (SchemeManagerIdentifier \<times> string) list) \<times> world" where
  "getResponses_loop env challenge [] responses ks w = (Inr responses, w)"
| "getResponses_loop env challenge (managerID # rest) responses ks w =
     (case map_of (transports ks) managerID of
        None \<Rightarrow> getResponses_loop env challenge rest responses ks w
      | Some transport \<Rightarrow>
          (case do_Post env transport ''prove/getResponse'' (ChallengeBody challenge) w of
             (Response j, w1) \<Rightarrow>
               getResponses_loop env challenge rest (AList.update managerID j responses) ks w1
           | (r, w1) \<Rightarrow>
               (Inl (managerID, Transport (case r of Failure e \<Rightarrow> e | _ \<Rightarrow> malformed)), w1)))"

fun collect_proofPs ::
  "env \<Rightarrow> (SchemeManagerIdentifier \<times> string) list \<Rightarrow> builder list
     \<Rightarrow> SchemeManagerIdentifier + nat option list" where
  "collect_proofPs env responses [] = Inr []"
| "collect_proofPs env responses (b # rest) =
     (let managerID = SchemeManagerIdentifier_of (pk_Issuer b)
      in if \<not> Distributed env managerID then map_sum id (Cons None) (collect_proofPs env responses rest)
         else
           (case jwt_ProofP env managerID
                   (case map_of responses managerID of None \<Rightarrow> [] | Some j \<Rightarrow> j) of
              None \<Rightarrow> Inl managerID
            | Some proofP \<Rightarrow> map_sum id (Cons proofP) (collect_proofPs env responses rest)))"

definition finishDisclosureOrSigning ::
  "env \<Rightarrow> int \<Rightarrow> (SchemeManagerIdentifier \<times> string) list \<Rightarrow> keyshareSession \<Rightarrow> world \<Rightarrow> world" where
  "finishDisclosureOrSigning env challenge responses ks w =
     (case collect_proofPs env responses (builders ks) of
        Inl managerID \<Rightarrow> emit (KeyshareError (Some managerID) JwtError) w
      | Inr proofPs \<Rightarrow>
          (case BuildDistributedProofList env (builders ks) challenge (Some proofPs) of
             None \<Rightarrow> emit (KeyshareError None ProofListError) w
           | Some list \<Rightarrow> emit (KeyshareDone (ProofList list)) w))"

definition Finish ::
  "env \<Rightarrow> int \<Rightarrow> (SchemeManagerIdentifier \<times> string) list \<Rightarrow> keyshareSession \<Rightarrow> world \<Rightarrow> world" where
  "Finish env challenge responses ks w =
     (case kind (session ks) of
        DisclosureRequest \<Rightarrow> finishDisclosureOrSigning env challenge responses ks w
      | SignatureRequest \<Rightarrow> finishDisclosureOrSigning env challenge responses ks w
      | IssuanceRequest \<Rightarrow>
          (case BuildDistributedProofList env (builders ks) challenge None of
             None \<Rightarrow>
               (case keyshareServer ks of
                  None \<Rightarrow> emit NilDereference w
                | Some k \<Rightarrow> emit (KeyshareError (Some (kss_SchemeManagerIdentifier k)) ProofListError) w)
           | Some list \<Rightarrow>
               emit (KeyshareDone (IssueCommitmentMessage list (issuerProofNonce ks) responses)) w))"

definition GetProofPs :: "env \<Rightarrow> keyshareSession \<Rightarrow> world \<Rightarrow> keyshareSession \<times> world" where
  "GetProofPs env ks w =
     (let challenge = Challenge env (builders ks) (session ks);
          (order, w1) = next_range env w
      in case getResponses_loop env challenge order [] ks w1 of
           (Inl (managerID, err), w2) \<Rightarrow> (ks, emit (KeyshareError (Some managerID) err) w2)
         | (Inr responses, w2) \<Rightarrow> (ks, Finish env challenge responses ks w2))"

text \<open>
  \<open>VerifyPin\<close> (lines 258 to 281) and \<open>GetCommitments\<close> (lines 342 to 400) call each
  other: every call of \<open>VerifyPin\<close> uses up one answer of the PIN requestor. Line 375
  assigns \<open>false\<close> to \<open>pinCheck\<close>.
\<close>

function VerifyPin ::
    "env \<Rightarrow> int \<Rightarrow> (bool \<times> string) list \<Rightarrow> keyshareSession \<Rightarrow> world \<Rightarrow> keyshareSession \<times> world"
  and GetCommitments ::
    "env \<Rightarrow> (bool \<times> string) list \<Rightarrow> keyshareSession \<Rightarrow> world \<Rightarrow> keyshareSession \<times> world" where
  "VerifyPin env attempts answers ks w =
     (let w1 = emit (RequestPin attempts) w
      in case answers of
           [] \<Rightarrow> (ks, w1)
         | (proceed, pin) # rest \<Rightarrow>
             if \<not> proceed then (ks, emit KeyshareCancelled w1)
             else
               (case verifyPinAttempt env pin ks w1 of
                  (None, ks', w2) \<Rightarrow> (ks', emit NilDereference w2)
                | (Some (success, attemptsRemaining, blocked, manager, err), ks', w2) \<Rightarrow>
                    (case err of
                       Some e \<Rightarrow> (ks', emit (KeyshareError (Some manager) e) w2)
                     | None \<Rightarrow>
                         if blocked \<noteq> 0 then (ks', emit (KeyshareBlocked manager blocked) w2)
                         else if success then GetCommitments env rest ks' (emit KeysharePinOK w2)
                         else VerifyPin env attemptsRemaining rest ks' w2)))"
| "GetCommitments env answers ks w =
     (let pkids = collect_pkids env (builders ks) [];
          (order, w1) = next_range env w
      in case getCommitments_loop env pkids order [] ks w1 of
           (Retry, w2) \<Rightarrow>
             VerifyPin env (- 1) answers (ks\<lparr>pinCheck := False\<rparr>) (emit KeysharePin w2)
         | (Failed managerID err, w2) \<Rightarrow> (ks, emit (KeyshareError (Some managerID) err) w2)
         | (Panicked, w2) \<Rightarrow> (ks, emit NilDereference w2)
         | (Collected commitments, w2) \<Rightarrow>
             GetProofPs env (ks\<lparr>builders := merge_builders commitments (builders ks)\<rparr>) w2)"
  by pat_completeness auto
termination
  by (relation "measure (\<lambda>x. case x of
          Inl (env, attempts, answers, ks, w) \<Rightarrow> 2 * length answers
        | Inr (env, answers, ks, w) \<Rightarrow> 2 * length answers + 1)") auto

text \<open>\<open>startKeyshareSession\<close> (lines 151 to 230).\<close>

definition startKeyshareSession ::
  "env \<Rightarrow> builder list \<Rightarrow> SessionRequest \<Rightarrow> (SchemeManagerIdentifier \<times> keyshareServer) list \<Rightarrow> int
     \<Rightarrow> (bool \<times> string) list \<Rightarrow> world \<Rightarrow> keyshareSession option \<times> world" where
  "startKeyshareSession env bs sess kss nonce answers w =
     (case preflight env bs sess kss nonce w of
        Inl w' \<Rightarrow> (None, w')
      | Inr (ks, w') \<Rightarrow>
          map_prod Some id
            (if pinCheck ks then VerifyPin env (- 1) answers ks (emit KeysharePin w')
             else GetCommitments env answers ks w'))"

text \<open>
  The condition of the spec on a stored token: it fails JWT parsing or signature
  verification, or its expiry time falls within one minute from now.
\<close>

definition token_needs_pin ::
  "env \<Rightarrow> (SchemeManagerIdentifier \<times> keyshareServer) list \<Rightarrow> SchemeManagerIdentifier \<Rightarrow> bool" where
  "token_needs_pin env kss m =
     (case map_of kss m of
        None \<Rightarrow> False
      | Some k \<Rightarrow>
          (case jwt_claims env m (token k) of
             None \<Rightarrow> True
           | Some exp \<Rightarrow> exp < now env m + 60))"

text \<open>
  The servers of the HTTP requests of a trace, in order; and the invariant that the
  transport kept for a scheme is bound to the keyshare server of that scheme.
\<close>

definition servers :: "event list \<Rightarrow> string list" where
  "servers tr = concat (map (\<lambda>e. case e of Post t p b \<Rightarrow> [Server t] | _ \<Rightarrow> []) tr)"

definition transports_bound :: "env \<Rightarrow> keyshareSession \<Rightarrow> bool" where
  "transports_bound env ks =
     (\<forall>m t. map_of (transports ks) m = Some t \<longrightarrow> Server t = KeyshareServer env m)"

subsection \<open>Example sessions\<close>

text \<open>
  A configuration with the distributed schemes \<open>test\<close> and \<open>pbdf\<close>, in which only the
  token \<open>t1\<close> is a valid JWT (expiring at 5000, the clock reading 1000), with scripted
  replies of the keyshare servers.
\<close>

definition scripted :: "reply list \<Rightarrow> nat \<Rightarrow> reply" where
  "scripted rs n = (if n < length rs then rs ! n else Failure malformed)"

definition forbidden :: reply where
  "forbidden = Failure \<lparr>ErrorType = ''serverResponse'', Info = [],
                 RemoteError = Some \<lparr>Status = 403, ErrorName = [], Message = []\<rparr>\<rparr>"

definition pin_ok :: "string \<Rightarrow> reply" where
  "pin_ok tok = PinStatus \<lparr>pin_Status = ''success'', pin_Message = tok\<rparr>"

definition kss_env :: "SchemeManagerIdentifier list \<Rightarrow> reply list \<Rightarrow> env" where
  "kss_env order rs =
     \<lparr>Distributed = (\<lambda>m. m = ''test'' \<or> m = ''pbdf''),
      KeyshareServer = (\<lambda>m. ''https://'' @ m @ ''/kss''),
      range_order = (\<lambda>k. order),
      jwt_claims = (\<lambda>m tok. if tok = ''t1'' then Some 5000 else None),
      now = (\<lambda>m. 1000),
      kss_reply = scripted rs,
      Sum256 = plain_digest,
      Challenge = (\<lambda>bs s. 99),
      jwt_ProofP = (\<lambda>m j. Some (Some 5)),
      BuildDistributedProofList = (\<lambda>bs c ps. Some [1])\<rparr>"

definition demo_builder :: builder where
  "demo_builder = \<lparr>pk_Issuer = ''test.issuer'', pk_Counter = 2, merged = []\<rparr>"

definition demo_request :: "request_kind \<Rightarrow> SchemeManagerIdentifier list \<Rightarrow> SessionRequest" where
  "demo_request k ms = \<lparr>kind = k, SchemeManagers = ms\<rparr>"

definition world0 :: world where
  "world0 = \<lparr>trace = [], http_calls = 0, ranges = 0\<rparr>"

definition handler_events :: "event list \<Rightarrow> event list" where
  "handler_events tr = filter (\<lambda>e. case e of Post t p b \<Rightarrow> False | _ \<Rightarrow> True) tr"

definition posts :: "event list \<Rightarrow> (string \<times> string \<times> string option) list" where
  "posts tr = concat (map (\<lambda>e. case e of Post t p b \<Rightarrow> [(Server t, p, map_of (headers t) ''Authorization'')] | _ \<Rightarrow> []) tr)"

definition two_env :: "SchemeManagerIdentifier list \<Rightarrow> env" where
  "two_env order = kss_env order [Commitments [], Commitments [], Response ''j1'', Response ''j2'']"

definition two_kss :: "(SchemeManagerIdentifier \<times> keyshareServer) list" where
  "two_kss = [(''test'', kss1), (''pbdf'', kss2)]"


subsection \<open>Auxiliary facts\<close>

lemma preflight_transports_keyshareServers:
  "preflight_transports env order ks = Some ks' \<Longrightarrow> keyshareServers ks' = keyshareServers ks"
proof (induction order arbitrary: ks)
  case Nil
  then show ?case by simp
next
  case (Cons m order)
  show ?case
  proof (cases "Distributed env m")
    case False
    with Cons show ?thesis by simp
  next
    case True
    with Cons.prems obtain k where k: "map_of (keyshareServers ks) m = Some k"
      by (cases "map_of (keyshareServers ks) m") simp_all
    from Cons.prems True k show ?thesis
      by (auto simp: Let_def split: option.splits if_splits dest!: Cons.IH)
  qed
qed

lemma preflight_transports_pinCheck:
  assumes "\<forall>m. 0 \<le> now env m" and "preflight_transports env order ks = Some ks'"
  shows "pinCheck ks' = (pinCheck ks \<or>
           (\<exists>m\<in>set order. Distributed env m \<and> token_needs_pin env (keyshareServers ks) m))"
  using assms(2)
proof (induction order arbitrary: ks)
  case Nil
  then show ?case by simp
next
  case (Cons m order)
  show ?case
  proof (cases "Distributed env m")
    case False
    with Cons show ?thesis by simp
  next
    case True
    with Cons.prems obtain k where k: "map_of (keyshareServers ks) m = Some k"
      by (cases "map_of (keyshareServers ks) m") simp_all
    define ks1 where "ks1 = ks\<lparr>keyshareServer := Some k,
        transports := AList.update m
          (SetHeader ''X-IRMA-Keyshare-ProtocolVersion'' ''2''
            (SetHeader ''Authorization'' (''Bearer '' @ token k)
              (SetHeader ''X-IRMA-Keyshare-Username'' (Username k)
                (NewHTTPTransport (KeyshareServer env m))))) (transports ks)\<rparr>"
    have same: "keyshareServers ks1 = keyshareServers ks" "pinCheck ks1 = pinCheck ks"
      by (simp_all add: ks1_def)
    from assms(1) have n: "0 \<le> now env m" by simp
    show ?thesis
    proof (cases "token_needs_pin env (keyshareServers ks) m")
      case True
      with k n Cons.prems \<open>Distributed env m\<close>
      have "preflight_transports env order (ks1\<lparr>pinCheck := True\<rparr>) = Some ks'"
        by (auto simp: token_needs_pin_def Let_def ks1_def VerifyExpiresAt_def split: option.splits if_splits)
      from Cons.IH [OF this] show ?thesis using True \<open>Distributed env m\<close> by simp
    next
      case False
      with k n Cons.prems \<open>Distributed env m\<close>
      have "preflight_transports env order ks1 = Some ks'"
        by (auto simp: token_needs_pin_def Let_def ks1_def VerifyExpiresAt_def split: option.splits if_splits)
      from Cons.IH [OF this] show ?thesis using False same by auto
    qed
  qed
qed

lemma preflight_enrolled_find:
  "preflight_enrolled env kss order n =
     (case find (\<lambda>m. Distributed env m \<and> map_of kss m = None) order of
        Some m \<Rightarrow> Inl m
      | None \<Rightarrow> Inr (n + length (filter (Distributed env) order)))"
  by (induction order arbitrary: n) (auto split: option.splits)

lemma servers_simps [simp]:
  "servers [] = []"
  "servers (Post t p b # tr) = Server t # servers tr"
  "servers (xs @ ys) = servers xs @ servers ys"
  by (simp_all add: servers_def)







lemma preflight_transports_bound:
  assumes "transports_bound env ks" and "preflight_transports env order ks = Some ks'"
  shows "transports_bound env ks'"
  using assms
proof (induction order arbitrary: ks)
  case Nil
  then show ?case by simp
next
  case (Cons m order)
  show ?case
  proof (cases "Distributed env m")
    case False
    with Cons show ?thesis by simp
  next
    case True
    with Cons.prems obtain k where k: "map_of (keyshareServers ks) m = Some k"
      by (cases "map_of (keyshareServers ks) m") simp_all
    let ?t = "SetHeader ''X-IRMA-Keyshare-ProtocolVersion'' ''2''
               (SetHeader ''Authorization'' (''Bearer '' @ token k)
                 (SetHeader ''X-IRMA-Keyshare-Username'' (Username k)
                   (NewHTTPTransport (KeyshareServer env m))))"
    have b: "\<And>pc. transports_bound env
        (ks\<lparr>keyshareServer := Some k, transports := AList.update m ?t (transports ks), pinCheck := pc\<rparr>)"
      using Cons.prems(1)
      by (auto simp: transports_bound_def update_conv' SetHeader_def NewHTTPTransport_def)
    have b': "transports_bound env
        (ks\<lparr>keyshareServer := Some k, transports := AList.update m ?t (transports ks)\<rparr>)"
      using Cons.prems(1)
      by (auto simp: transports_bound_def update_conv' SetHeader_def NewHTTPTransport_def)
    from Cons.prems(2) True k show ?thesis
      by (auto simp: Let_def split: option.splits if_splits intro: Cons.IH [OF b] Cons.IH [OF b'])
  qed
qed

lemma preflight_bound:
  assumes "preflight env bs sess kss nonce w = Inr (ks, w')"
  shows "transports_bound env ks"
proof -
  let ?ks0 = "\<lparr>builders = bs, session = sess, keyshareServers = kss, keyshareServer = None,
               transports = [], issuerProofNonce = nonce, pinCheck = False\<rparr>"
  from assms have "preflight_transports env (range_order env (Suc (ranges w))) ?ks0 = Some ks"
    by (auto simp: preflight_def next_range_def Let_def split: sum.splits if_splits option.splits)
  moreover have "transports_bound env ?ks0" by (simp add: transports_bound_def)
  ultimately show ?thesis by (rule preflight_transports_bound [rotated])
qed

subsection \<open>Preflight: when the PIN is asked for\<close>

text \<open>
  C4. At the end of preflight in \<open>startKeyshareSession\<close>, \<open>pinCheck\<close> is true if and
  only if, for at least one distributed scheme referenced by the session, the stored token
  fails JWT parsing or signature verification, or its expiry time falls within one minute
  from now (the clock not being negative); when \<open>pinCheck\<close> is true the session emits
  \<open>KeysharePin\<close> and enters \<open>VerifyPin(-1)\<close>, otherwise it proceeds directly to
  \<open>GetCommitments\<close>.
\<close>

theorem pinCheck_iff_token_needs_pin:
  assumes pre: "preflight env bs sess kss nonce w = Inr (ks, w')"
    and order: "\<forall>k. set (range_order env k) = set (SchemeManagers sess)"
    and clock: "\<forall>m. 0 \<le> now env m"
  shows "pinCheck ks = (\<exists>m\<in>set (SchemeManagers sess). Distributed env m \<and> token_needs_pin env kss m)
         \<and> startKeyshareSession env bs sess kss nonce answers w
             = (if pinCheck ks
                then map_prod Some id (VerifyPin env (- 1) answers ks (emit KeysharePin w'))
                else map_prod Some id (GetCommitments env answers ks w'))"
proof
  let ?ks0 = "\<lparr>builders = bs, session = sess, keyshareServers = kss, keyshareServer = None,
               transports = [], issuerProofNonce = nonce, pinCheck = False\<rparr>"
  from pre have "preflight_transports env (range_order env (Suc (ranges w))) ?ks0 = Some ks"
    by (auto simp: preflight_def next_range_def Let_def split: sum.splits if_splits option.splits)
  from preflight_transports_pinCheck [OF clock this] order
  show "pinCheck ks = (\<exists>m\<in>set (SchemeManagers sess). Distributed env m \<and> token_needs_pin env kss m)"
    by simp
  from pre show "startKeyshareSession env bs sess kss nonce answers w
             = (if pinCheck ks
                then map_prod Some id (VerifyPin env (- 1) answers ks (emit KeysharePin w'))
                else map_prod Some id (GetCommitments env answers ks w'))"
    by (simp add: startKeyshareSession_def)
qed

theorem pinCheck_iff_token_needs_pin_witness:
  "preflight (kss_env [''test''] []) [demo_builder] (demo_request DisclosureRequest [''test''])
       [(''test'', kss1\<lparr>token := ''stale''\<rparr>)] 0 world0
     = Inr (projr (preflight (kss_env [''test''] []) [demo_builder] (demo_request DisclosureRequest [''test''])
              [(''test'', kss1\<lparr>token := ''stale''\<rparr>)] 0 world0))
   \<and> (\<forall>k. set (range_order (kss_env [''test''] []) k) = set (SchemeManagers (demo_request DisclosureRequest [''test''])))
   \<and> (\<forall>m. 0 \<le> now (kss_env [''test''] []) m)
   \<and> pinCheck (fst (projr (preflight (kss_env [''test''] []) [demo_builder]
          (demo_request DisclosureRequest [''test'']) [(''test'', kss1\<lparr>token := ''stale''\<rparr>)] 0 world0)))
   \<and> (\<exists>m\<in>set (SchemeManagers (demo_request DisclosureRequest [''test''])).
          Distributed (kss_env [''test''] []) m
          \<and> token_needs_pin (kss_env [''test''] []) [(''test'', kss1\<lparr>token := ''stale''\<rparr>)] m)"
proof -
  let ?E = "kss_env [''test''] []"
  let ?S = "demo_request DisclosureRequest [''test'']"
  let ?K = "[(''test'', kss1\<lparr>token := ''stale''\<rparr>)]"
  let ?P = "preflight ?E [demo_builder] ?S ?K 0 world0"
  have "\<not> isl ?P" by code_simp
  then have p: "?P = Inr (fst (projr ?P), snd (projr ?P))" by simp
  have o: "\<forall>k. set (range_order ?E k) = set (SchemeManagers ?S)"
    by (simp add: kss_env_def demo_request_def)
  have c: "\<forall>m. 0 \<le> now ?E m" by (simp add: kss_env_def)
  have pc: "pinCheck (fst (projr ?P))" by code_simp
  from pinCheck_iff_token_needs_pin [OF p o c, of "[]"] pc p o c show ?thesis by simp
qed

subsection \<open>Preflight: issuance with several keyshare servers\<close>

text \<open>
  C5, as the code has it. If the session request is an issuance request and the number of
  distributed schemes it references is greater than one, \<open>startKeyshareSession\<close> fails
  during preflight with one \<open>KeyshareError\<close>, which is all it does: no session struct
  is created (the result \<open>None\<close>), hence no transport, and no proof builder is touched
  (the builders are changed through the session struct only); no HTTP request is made.
  The error carries a nil manager when every distributed scheme is enrolled; otherwise it
  carries the first distributed scheme of the iteration that is not enrolled.
\<close>

theorem issuance_several_keyshare_servers:
  assumes issuing: "kind sess = IssuanceRequest"
    and order: "distinct (range_order env (ranges w))"
      "set (range_order env (ranges w)) = set (SchemeManagers sess)"
    and several: "1 < card {m \<in> set (SchemeManagers sess). Distributed env m}"
  shows "startKeyshareSession env bs sess kss nonce answers w =
           (None, emit (case find (\<lambda>m. Distributed env m \<and> map_of kss m = None)
                               (range_order env (ranges w)) of
                          None \<Rightarrow> KeyshareError None IssuanceUnsupported
                        | Some m \<Rightarrow> KeyshareError (Some m) (NotEnrolled m))
                   (w\<lparr>ranges := Suc (ranges w)\<rparr>))
         \<and> http_calls (snd (startKeyshareSession env bs sess kss nonce answers w)) = http_calls w
         \<and> servers (trace (snd (startKeyshareSession env bs sess kss nonce answers w)))
             = servers (trace w)"
proof -
  let ?order = "range_order env (ranges w)"
  from order(1) have "distinct (filter (Distributed env) ?order)" by simp
  then have "length (filter (Distributed env) ?order) = card (set (filter (Distributed env) ?order))"
    by (rule distinct_card [symmetric])
  also have "set (filter (Distributed env) ?order) = {m \<in> set (SchemeManagers sess). Distributed env m}"
    using order(2) by auto
  finally have "1 < length (filter (Distributed env) ?order)" using several by simp
  with issuing have eq: "startKeyshareSession env bs sess kss nonce answers w =
           (None, emit (case find (\<lambda>m. Distributed env m \<and> map_of kss m = None) ?order of
                          None \<Rightarrow> KeyshareError None IssuanceUnsupported
                        | Some m \<Rightarrow> KeyshareError (Some m) (NotEnrolled m))
                   (w\<lparr>ranges := Suc (ranges w)\<rparr>))"
    by (simp add: startKeyshareSession_def preflight_def next_range_def preflight_enrolled_find
          split: option.splits)
  have "servers (trace (snd (startKeyshareSession env bs sess kss nonce answers w)))
          = servers (trace w)"
    unfolding eq by (simp add: emit_def servers_def split: option.splits)
  moreover have "http_calls (snd (startKeyshareSession env bs sess kss nonce answers w)) = http_calls w"
    unfolding eq by (simp add: emit_def)
  ultimately show ?thesis using eq by simp
qed

theorem issuance_several_keyshare_servers_witness:
  "kind (demo_request IssuanceRequest [''test'', ''pbdf'']) = IssuanceRequest
   \<and> distinct (range_order (two_env [''pbdf'', ''test'']) (ranges world0))
   \<and> set (range_order (two_env [''pbdf'', ''test'']) (ranges world0))
       = set (SchemeManagers (demo_request IssuanceRequest [''test'', ''pbdf'']))
   \<and> 1 < card {m \<in> set (SchemeManagers (demo_request IssuanceRequest [''test'', ''pbdf''])).
               Distributed (two_env [''pbdf'', ''test'']) m}
   \<and> startKeyshareSession (two_env [''pbdf'', ''test'']) [demo_builder]
         (demo_request IssuanceRequest [''test'', ''pbdf'']) two_kss 0 [] world0
       = (None, \<lparr>trace = [KeyshareError None IssuanceUnsupported], http_calls = 0, ranges = 1\<rparr>)"
proof -
  let ?E = "two_env [''pbdf'', ''test'']"
  let ?S = "demo_request IssuanceRequest [''test'', ''pbdf'']"
  have a: "kind ?S = IssuanceRequest" by (simp add: demo_request_def)
  have b: "distinct (range_order ?E (ranges world0))" by (simp add: two_env_def kss_env_def)
  have c: "set (range_order ?E (ranges world0)) = set (SchemeManagers ?S)"
    by (auto simp: two_env_def kss_env_def demo_request_def)
  have "{m \<in> set (SchemeManagers ?S). Distributed ?E m} = {''test'', ''pbdf''}"
    by (auto simp: two_env_def kss_env_def demo_request_def)
  then have d: "1 < card {m \<in> set (SchemeManagers ?S). Distributed ?E m}" by simp
  have e: "(None, emit (case find (\<lambda>m. Distributed ?E m \<and> map_of two_kss m = None)
                               (range_order ?E (ranges world0)) of
                          None \<Rightarrow> KeyshareError None IssuanceUnsupported
                        | Some m \<Rightarrow> KeyshareError (Some m) (NotEnrolled m))
                   (world0\<lparr>ranges := Suc (ranges world0)\<rparr>))
         = (None :: keyshareSession option,
            \<lparr>trace = [KeyshareError None IssuanceUnsupported], http_calls = 0, ranges = 1\<rparr>)"
    by code_simp
  from issuance_several_keyshare_servers [OF a b c d, of "[demo_builder]" two_kss 0 "[]"] e a b c d
  show ?thesis by simp
qed

text \<open>
  The claim as the spec states it fails when a distributed scheme is not enrolled: the
  check of lines 165 to 169 comes first, and its error names the scheme.
\<close>

theorem issuance_several_keyshare_servers_counterexample:
  "kind (demo_request IssuanceRequest [''test'', ''pbdf'']) = IssuanceRequest
   \<and> length (filter (Distributed (two_env [''test'', ''pbdf'']))
               (SchemeManagers (demo_request IssuanceRequest [''test'', ''pbdf'']))) = 2
   \<and> startKeyshareSession (two_env [''test'', ''pbdf'']) [demo_builder]
         (demo_request IssuanceRequest [''test'', ''pbdf'']) [(''pbdf'', kss2)] 0 [] world0
       = (None, \<lparr>trace = [KeyshareError (Some ''test'') (NotEnrolled ''test'')],
                 http_calls = 0, ranges = 1\<rparr>)"
  by code_simp

subsection \<open>The order of the calls\<close>




subsection \<open>A second 403 from getCommitments\<close>

text \<open>
  C1. The spec allows one PIN prompt caused by a 403 from \<open>prove/getCommitments\<close>, the
  second 403 ending the session with \<open>KeyshareError\<close>. The code keeps \<open>pinCheck\<close>
  false in that branch (line 375), so every 403 prompts again: in the session below, whose
  token is valid, the keyshare server answers 403 to the first and to the second
  \<open>getCommitments\<close>, and the handler sees \<open>KeysharePin\<close> and \<open>RequestPin(-1)\<close>
  twice and no \<open>KeyshareError\<close>.
\<close>

theorem second_forbidden_prompts_again:
  "handler_events (trace (snd (startKeyshareSession
       (kss_env [''test'']
          [forbidden, pin_ok ''t2'', forbidden, pin_ok ''t3'', Commitments [], Response ''jwt''])
       [demo_builder] (demo_request DisclosureRequest [''test'']) [(''test'', kss1)] 0
       [(True, ''12345''), (True, ''12345'')] world0)))
   = [KeysharePin, RequestPin (- 1), KeysharePinOK, KeysharePin, RequestPin (- 1), KeysharePinOK,
      KeyshareDone (ProofList [1])]"
  by code_simp

subsection \<open>The Authorization header after a PIN verification\<close>

text \<open>
  C2. The spec has every call carry \<open>Authorization: Bearer <token>\<close>. \<open>verifyPinWorker\<close>
  stores the new token and sets the header to the token itself (line 296), without the
  prefix that \<open>startKeyshareSession\<close> puts (line 200): in the session below the calls
  before the PIN verification carry \<open>Bearer t1\<close>, and the calls after it carry \<open>t2\<close>,
  the new token being \<open>t2\<close>.
\<close>

theorem authorization_after_pin_lacks_bearer:
  "posts (trace (snd (startKeyshareSession
       (kss_env [''test''] [forbidden, pin_ok ''t2'', Commitments [], Response ''jwt''])
       [demo_builder] (demo_request DisclosureRequest [''test'']) [(''test'', kss1)] 0
       [(True, ''12345'')] world0)))
   = [(''https://test/kss'', ''prove/getCommitments'', Some ''Bearer t1''),
      (''https://test/kss'', ''users/verify/pin'', Some ''Bearer t1''),
      (''https://test/kss'', ''prove/getCommitments'', Some ''t2''),
      (''https://test/kss'', ''prove/getResponse'', Some ''t2'')]
   \<and> map_option (\<lambda>ks. map_option token (map_of (keyshareServers ks) ''test''))
        (fst (startKeyshareSession
          (kss_env [''test''] [forbidden, pin_ok ''t2'', Commitments [], Response ''jwt''])
          [demo_builder] (demo_request DisclosureRequest [''test'']) [(''test'', kss1)] 0
          [(True, ''12345'')] world0))
       = Some (Some ''t2'')"
  by code_simp

end
